theory Spec2Isabelle
  imports Main
begin

section \<open>Data model of notice-embed.js\<close>

text \<open>
  The bot polls a feed, posts every announcement whose id is not yet in the JSON database
  file to the configured Discord webhooks, and appends a record for each announcement
  that reached at least one webhook. This theory embeds \<^verbatim>\<open>src/notice-embed.js\<close>:
  \<^verbatim>\<open>loadPosted\<close>, \<^verbatim>\<open>savePosted\<close>, \<^verbatim>\<open>postToDiscord\<close>, \<^verbatim>\<open>syncToGitHub\<close>,
  \<^verbatim>\<open>syncIfNeeded\<close> and \<^verbatim>\<open>main\<close>; and, in a section of its own, the same functions
  of the earlier copy of the program, \<^verbatim>\<open>src/unnamed/part_001\<close>, whose \<^verbatim>\<open>main\<close> has no
  inner \<^verbatim>\<open>try\<close>.

  Everything the program gets from outside is an input of the model: the feed's answer,
  whether the embed builder of discord.js accepts an item, the result of every
  \<^verbatim>\<open>webhookClient.send\<close> attempt, which of the two promises of \<^verbatim>\<open>Promise.race\<close> settles
  first, the clock, and the answer of the GitHub API. Everything it does to the outside is
  an event appended to a trace: file writes, webhook attempts, GitHub uploads and the log
  lines the properties speak about.
\<close>

text \<open>An item of the feed as \<^verbatim>\<open>fetchAnnouncements\<close> returns it (field \<^verbatim>\<open>id\<close> is \<open>ann_id\<close>).\<close>

record announcement =
  ann_id :: string
  ann_title :: string
  pubDate :: string
  link :: string
  description :: string

text \<open>An element of the database array: \<^verbatim>\<open>{ id, title, postedAt }\<close>.\<close>

record posted_record =
  rec_id :: string
  rec_title :: string
  postedAt :: string

text \<open>
  The content of \<^verbatim>\<open>DB_FILE\<close>, seen through what the program does with it:
  \<^item> \<open>Unparsable\<close>: a text on which \<^verbatim>\<open>readFileSync\<close> or \<^verbatim>\<open>JSON.parse\<close> throws;
  \<^item> \<open>Malformed\<close>: a text that parses, to a value on which \<^verbatim>\<open>posted.map(a => a.id)\<close>
    throws a TypeError: a value that is not an array, such as \<^verbatim>\<open>{}\<close> or \<^verbatim>\<open>null\<close>, or an
    array with a \<^verbatim>\<open>null\<close> in it;
  \<^item> \<open>Json v\<close>: the text of the array of records \<open>v\<close>: \<^verbatim>\<open>JSON.stringify(v, null, 2)\<close>
    writes it and \<^verbatim>\<open>JSON.parse\<close> reads \<open>v\<close> back from it.
  A file that is absent is \<open>None\<close>. Arrays with other elements that are not records
  (numbers, objects without an id) are not represented.
\<close>

datatype db_file = Unparsable | Malformed | Json "posted_record list"

text \<open>What \<^verbatim>\<open>JSON.parse\<close> returns to \<^verbatim>\<open>loadPosted\<close>, as far as \<^verbatim>\<open>main\<close> can tell.\<close>

datatype parsed = Records "posted_record list" | NotRecords

text \<open>An element of \<^verbatim>\<open>results\<close> in \<^verbatim>\<open>postToDiscord\<close>: \<^verbatim>\<open>{ success, serverName, error }\<close>.\<close>

record outcome =
  success :: bool
  serverName :: string
  error :: "string option"

datatype log =
    NoAnnouncementsFound
  | UpdatedDatabase nat
  | NoneSaved
  | NoNewAnnouncements
  | NoGitHubToken
  | ErrorInMain string
  | TypeErrorInMain
  | SyntaxErrorInMain

datatype event =
    WriteFile "posted_record list"
  | PostToDiscord nat
  | Send nat nat nat
  | SyncToGitHub
  | GitHubPut "db_file option"
  | Log log

text \<open>
  The process state that outlives a cycle: the database file, the module variable
  \<^verbatim>\<open>lastSyncTime\<close>, and what the process has done so far. \<open>trace\<close> holds, in order,
  the events of \<^verbatim>\<open>main\<close> and of the calls it waited for. \<open>background\<close> holds the webhook
  attempts of the calls of \<^verbatim>\<open>postToDiscord\<close> that \<^verbatim>\<open>main\<close> gave up at its timer: the
  call goes on while \<^verbatim>\<open>main\<close> moves to the next item or returns, so the place of these
  attempts among the later events of the trace is not determined.
\<close>

record world =
  db :: "db_file option"
  lastSyncTime :: int
  trace :: "event list"
  background :: "event list"

text \<open>The environment variables the program reads (\<open>None\<close>: not set).\<close>

record config =
  env_WEBHOOK_URLS :: "string option"
  env_WEBHOOK_NAMES :: "string option"
  env_GITHUB_TOKEN :: "string option"

text \<open>
  What the outside world answers during one cycle:
  \<^item> \<open>fetched\<close>: \<^verbatim>\<open>fetchAnnouncements()\<close> throws (\<open>Inl\<close> the message) or returns the items;
  \<^item> \<open>embed_error a\<close>: building the embed for the item \<open>a\<close> (lines 94 to 113) throws with
    this message, or \<open>None\<close> when the embed is built. The builder is code of discord.js,
    which validates what it is given (a title of 1 to 256 characters, a well-formed
    link, field values of 1 to 1024 characters), so it is a parameter here;
  \<^item> \<open>send i t k\<close>: attempt \<open>k\<close> at webhook \<open>t\<close> for the feed item at index \<open>i\<close>, that is
    the race of \<^verbatim>\<open>webhookClient.send\<close> against the attempt's timer: \<open>None\<close> when the
    send resolves first, \<open>Some m\<close> when the attempt throws with message \<open>m\<close> (a rejection,
    or the timer);
  \<^item> \<open>timer_first i\<close>: the 30 second timer of \<^verbatim>\<open>main\<close> fires before \<^verbatim>\<open>postToDiscord\<close>
    settles for the item at index \<open>i\<close>;
  \<^item> \<open>iso_now i\<close>: \<^verbatim>\<open>new Date().toISOString()\<close> when the item at index \<open>i\<close> is recorded;
  \<^item> \<open>date_now\<close>: \<^verbatim>\<open>Date.now()\<close> in \<^verbatim>\<open>syncIfNeeded\<close>;
  \<^item> \<open>octokit_ok\<close>: \<^verbatim>\<open>createOrUpdateFileContents\<close> succeeds.
\<close>

record env =
  fetched :: "string + announcement list"
  embed_error :: "announcement \<Rightarrow> string option"
  send :: "nat \<Rightarrow> nat \<Rightarrow> nat \<Rightarrow> string option"
  timer_first :: "nat \<Rightarrow> bool"
  iso_now :: "nat \<Rightarrow> string"
  date_now :: int
  octokit_ok :: bool

section \<open>Configuration (lines 10 to 22)\<close>

text \<open>\<^verbatim>\<open>s.split(c)\<close> for a one-character separator: always at least one piece.\<close>

fun splitOn :: "char \<Rightarrow> string \<Rightarrow> string list" where
  "splitOn c [] = [[]]"
| "splitOn c (x # xs) =
     (if x = c then [] # splitOn c xs
      else (case splitOn c xs of [] \<Rightarrow> [[x]] | p # ps \<Rightarrow> (x # p) # ps))"

text \<open>The decimal digits of a number, as a template literal prints it.\<close>

fun decimal :: "nat \<Rightarrow> string" where
  "decimal n =
     (if n < 10 then [char_of (48 + n)]
      else decimal (n div 10) @ [char_of (48 + n mod 10)])"

declare decimal.simps [simp del]

definition server :: "nat \<Rightarrow> string" where
  "server n = ''Server '' @ decimal n"

text \<open>An environment variable is falsy when it is not set or empty.\<close>

fun truthy :: "string option \<Rightarrow> bool" where
  "truthy None = False"
| "truthy (Some s) = (s \<noteq> [])"

definition WEBHOOK_URLS :: "config \<Rightarrow> string list" where
  "WEBHOOK_URLS cfg =
     (if truthy (env_WEBHOOK_URLS cfg) then splitOn CHR '','' (the (env_WEBHOOK_URLS cfg))
      else [])"

text \<open>The loop of lines 20 to 22, which pads the names up to the number of URLs.\<close>

function pad_names :: "string list \<Rightarrow> nat \<Rightarrow> string list" where
  "pad_names names n =
     (if length names < n then pad_names (names @ [server (length names + 1)]) n
      else names)"
  by pat_completeness auto
termination
  by (relation "measure (\<lambda>(names, n). n - length names)") auto

declare pad_names.simps [simp del]

definition WEBHOOK_NAMES :: "config \<Rightarrow> string list" where
  "WEBHOOK_NAMES cfg =
     pad_names
       (if truthy (env_WEBHOOK_NAMES cfg) then splitOn CHR '','' (the (env_WEBHOOK_NAMES cfg))
        else map (\<lambda>index. server (index + 1)) [0 ..< length (WEBHOOK_URLS cfg)])
       (length (WEBHOOK_URLS cfg))"

definition SYNC_INTERVAL_MS :: int where
  "SYNC_INTERVAL_MS = 24 * 60 * 60 * 1000"

section \<open>The store: loadPosted and savePosted\<close>

definition writeFileSync :: "posted_record list \<Rightarrow> world \<Rightarrow> world" where
  "writeFileSync v w = w\<lparr>db := Some (Json v), trace := trace w @ [WriteFile v]\<rparr>"

text \<open>
  \<^verbatim>\<open>loadPosted\<close>: an absent file and a file on which reading or \<^verbatim>\<open>JSON.parse\<close> throws
  are both replaced by the empty array, which is returned. Whatever \<^verbatim>\<open>JSON.parse\<close>
  returns is returned as it is, and the file is left alone.
\<close>

definition loadPosted :: "world \<Rightarrow> parsed \<times> world" where
  "loadPosted w =
     (case db w of
        Some (Json v) \<Rightarrow> (Records v, w)
      | Some Malformed \<Rightarrow> (NotRecords, w)
      | Some Unparsable \<Rightarrow> (Records [], writeFileSync [] w)
      | None \<Rightarrow> (Records [], writeFileSync [] w))"

definition savePosted :: "posted_record list \<Rightarrow> world \<Rightarrow> world" where
  "savePosted posted w = writeFileSync posted w"

text \<open>
  The records of the store as the next cycle will see them: what \<^verbatim>\<open>loadPosted\<close>
  returns, and no record when that is not an array of records.
\<close>

definition stored :: "world \<Rightarrow> posted_record list" where
  "stored w = (case fst (loadPosted w) of Records v \<Rightarrow> v | NotRecords \<Rightarrow> [])"

section \<open>The dispatcher: postToDiscord\<close>

text \<open>\<^verbatim>\<open>WEBHOOK_NAMES[i] || `Server ${i + 1}`\<close>: a missing or empty name falls back.\<close>

definition nameOf :: "string list \<Rightarrow> nat \<Rightarrow> string" where
  "nameOf names t =
     (if t < length names \<and> names ! t \<noteq> [] then names ! t else server (t + 1))"

text \<open>
  The retry loop of lines 126 to 184 for webhook \<open>t\<close> and feed item \<open>i\<close>, entered at attempt
  number \<open>attempt\<close>. It returns \<^verbatim>\<open>results\<close>, \<^verbatim>\<open>success\<close>, \<^verbatim>\<open>lastError\<close> and the
  attempts it made. \<^verbatim>\<open>getWebhookParts\<close> only splits a string and cannot throw, so the
  \<^verbatim>\<open>break\<close> of line 138 is never reached and has no branch here.
\<close>

function attempts ::
  "env \<Rightarrow> string \<Rightarrow> nat \<Rightarrow> nat \<Rightarrow> nat \<Rightarrow> outcome list \<Rightarrow> string option
   \<Rightarrow> outcome list \<times> bool \<times> string option \<times> event list" where
  "attempts e name i t attempt results lastError =
     (if attempt \<le> 3 then
        (case send e i t attempt of
           None \<Rightarrow>
             (results @ [\<lparr>success = True, serverName = name, error = None\<rparr>], True, lastError,
              [Send i t attempt])
         | Some m \<Rightarrow>
             (case attempts e name i t (attempt + 1) results (Some m) of
                (results', success', lastError', evs) \<Rightarrow>
                  (results', success', lastError', Send i t attempt # evs)))
      else (results, False, lastError, []))"
  by pat_completeness auto
termination
  by (relation "measure (\<lambda>(e, name, i, t, attempt, results, lastError). 4 - attempt)") auto

declare attempts.simps [simp del]

text \<open>The loop over the webhooks (lines 118 to 197), entered at webhook index \<open>t\<close>.\<close>

function webhooks ::
  "config \<Rightarrow> env \<Rightarrow> nat \<Rightarrow> nat \<Rightarrow> outcome list \<Rightarrow> event list
   \<Rightarrow> outcome list \<times> event list" where
  "webhooks cfg e i t results evs =
     (if t < length (WEBHOOK_URLS cfg) then
        (case attempts e (nameOf (WEBHOOK_NAMES cfg) t) i t 1 results None of
           (results', success', lastError, evs') \<Rightarrow>
             webhooks cfg e i (t + 1)
               (if \<not> success' then
                  results' @
                    [\<lparr>success = False, serverName = nameOf (WEBHOOK_NAMES cfg) t,
                      error = Some (case lastError of Some m \<Rightarrow> m
                                    | None \<Rightarrow> ''Unknown error'')\<rparr>]
                else results')
               (evs @ evs'))
      else (results, evs))"
  by pat_completeness auto
termination
  by (relation "measure (\<lambda>(cfg, e, i, t, results, evs). length (WEBHOOK_URLS cfg) - t)") auto

declare webhooks.simps [simp del]

text \<open>
  \<^verbatim>\<open>postToDiscord(announcement)\<close> for the feed item at index \<open>i\<close>. The embed is built
  first, outside any \<^verbatim>\<open>try\<close>: when the builder throws, the call throws before any
  attempt. Otherwise the result is the outcomes of all webhooks, or the error thrown when
  there are outcomes and all of them are failures. The second component is the attempts
  of the call.
\<close>

definition postToDiscord ::
  "config \<Rightarrow> env \<Rightarrow> nat \<Rightarrow> announcement \<Rightarrow> (string + outcome list) \<times> event list" where
  "postToDiscord cfg e i announcement =
     (case embed_error e announcement of
        Some m \<Rightarrow> (Inl m, [])
      | None \<Rightarrow>
          (case webhooks cfg e i 0 [] [] of
             (results, evs) \<Rightarrow>
               (if length results > 0 \<and> list_all (\<lambda>r. \<not> success r) results
                then Inl ''Failed to post to all Discord webhooks after multiple retries''
                else Inr results,
                evs)))"

section \<open>Backup: syncToGitHub and syncIfNeeded\<close>

text \<open>
  \<^verbatim>\<open>syncToGitHub\<close>: without a token it returns false at once; with one it creates the
  database file when it is absent, uploads the file and returns whether the upload
  succeeded (every error is caught and gives false).
\<close>

definition syncToGitHub :: "config \<Rightarrow> env \<Rightarrow> world \<Rightarrow> bool \<times> world" where
  "syncToGitHub cfg e w =
     (let w1 = w\<lparr>trace := trace w @ [SyncToGitHub]\<rparr> in
      if \<not> truthy (env_GITHUB_TOKEN cfg) then (False, w1\<lparr>trace := trace w1 @ [Log NoGitHubToken]\<rparr>)
      else
        (let w2 = (if db w1 = None then writeFileSync [] w1 else w1) in
         (octokit_ok e, w2\<lparr>trace := trace w2 @ [GitHubPut (db w2)]\<rparr>)))"

definition syncIfNeeded :: "config \<Rightarrow> env \<Rightarrow> world \<Rightarrow> world" where
  "syncIfNeeded cfg e w =
     (let now = date_now e in
      if now - lastSyncTime w \<ge> SYNC_INTERVAL_MS then
        (case syncToGitHub cfg e w of
           (success', w') \<Rightarrow> if success' then w'\<lparr>lastSyncTime := now\<rparr> else w')
      else w)"

section \<open>The reconciliation loop: main\<close>

text \<open>The variables of \<^verbatim>\<open>main\<close> that its loop changes, and the world.\<close>

record loop_state =
  successfulAnnouncements :: "posted_record list"
  newPosted :: bool
  newCount :: nat
  lw :: world

text \<open>
  \<^verbatim>\<open>Promise.race([postingPromise, timeoutPromise])\<close>: the timer's rejection when the
  timer fires first, the result of \<^verbatim>\<open>postToDiscord\<close> otherwise.
\<close>

definition race :: "bool \<Rightarrow> string + 'a \<Rightarrow> string + 'a" where
  "race timer p = (if timer then Inl ''Discord posting timed out after 30 seconds'' else p)"

text \<open>
  The body of the loop of \<^verbatim>\<open>main\<close> (lines 367 to 413) at index \<open>i\<close>. The call of
  \<^verbatim>\<open>postToDiscord\<close> is an event of the trace. Its attempts follow in the trace when
  \<^verbatim>\<open>main\<close> gets the result of the call; when the timer fires first they go to
  \<open>background\<close>.
\<close>

definition body ::
  "config \<Rightarrow> env \<Rightarrow> string set \<Rightarrow> announcement list \<Rightarrow> nat \<Rightarrow> loop_state \<Rightarrow> loop_state" where
  "body cfg e postedIds announcements i st =
     (let ann = announcements ! i in
      if ann_id ann \<notin> postedIds then
        (case postToDiscord cfg e i ann of
           (postingPromise, evs) \<Rightarrow>
             (let called = (lw st)\<lparr>trace := trace (lw st) @ [PostToDiscord i]\<rparr>;
                  w' = (if timer_first e i
                        then called\<lparr>background := background called @ evs\<rparr>
                        else called\<lparr>trace := trace called @ evs\<rparr>);
                  discordSuccess =
                    (case race (timer_first e i) postingPromise of
                       Inr postingResult \<Rightarrow> list_ex success postingResult
                     | Inl postError \<Rightarrow> False)
              in if discordSuccess then
                   st\<lparr>successfulAnnouncements :=
                        successfulAnnouncements st @
                          [\<lparr>rec_id = ann_id ann, rec_title = ann_title ann,
                            postedAt = iso_now e i\<rparr>],
                      newPosted := True,
                      newCount := newCount st + 1,
                      lw := w'\<rparr>
                 else st\<lparr>lw := w'\<rparr>))
      else st)"

text \<open>
  \<^verbatim>\<open>for (let i = announcements.length - 1; i >= 0; i--)\<close>: \<open>loop \<dots> n\<close> runs the body at
  the indices \<open>n - 1\<close> down to \<open>0\<close>, which are all in range when \<open>n\<close> is the length.
\<close>

fun loop ::
  "config \<Rightarrow> env \<Rightarrow> string set \<Rightarrow> announcement list \<Rightarrow> nat \<Rightarrow> loop_state \<Rightarrow> loop_state" where
  "loop cfg e postedIds announcements 0 st = st"
| "loop cfg e postedIds announcements (Suc i) st =
     loop cfg e postedIds announcements i (body cfg e postedIds announcements i st)"

definition say :: "log \<Rightarrow> world \<Rightarrow> world" where
  "say l w = w\<lparr>trace := trace w @ [Log l]\<rparr>"

text \<open>
  One cycle. When what \<^verbatim>\<open>loadPosted\<close> returned is not an array of records,
  \<^verbatim>\<open>posted.map(a => a.id)\<close> at line 350 throws a TypeError; that and a failed fetch are
  caught by the outer \<^verbatim>\<open>try\<close> of \<^verbatim>\<open>main\<close>, which logs the error. An empty feed
  returns at line 358.
\<close>

definition main :: "config \<Rightarrow> env \<Rightarrow> world \<Rightarrow> world" where
  "main cfg e w =
     (case loadPosted w of
        (NotRecords, w1) \<Rightarrow> say TypeErrorInMain w1
      | (Records posted, w1) \<Rightarrow>
          (let postedIds = set (map rec_id posted) in
           case fetched e of
             Inl err \<Rightarrow> say (ErrorInMain err) w1
           | Inr announcements \<Rightarrow>
               if length announcements = 0 then say NoAnnouncementsFound w1
               else
                 (let st = loop cfg e postedIds announcements (length announcements)
                             \<lparr>successfulAnnouncements = [], newPosted = False, newCount = 0,
                               lw = w1\<rparr>
                  in if length (successfulAnnouncements st) > 0 then
                       snd (syncToGitHub cfg e
                              (say (UpdatedDatabase (length (successfulAnnouncements st)))
                                 (savePosted (posted @ successfulAnnouncements st) (lw st))))
                     else if newPosted st then say NoneSaved (lw st)
                     else syncIfNeeded cfg e (say NoNewAnnouncements (lw st)))))"

text \<open>Successive cycles, each with its own answers of the outside world.\<close>

fun run :: "config \<Rightarrow> env list \<Rightarrow> world \<Rightarrow> world" where
  "run cfg [] w = w"
| "run cfg (e # es) w = run cfg es (main cfg e w)"

section \<open>The earlier copy of the program: src/unnamed/part_001\<close>

text \<open>
  In this copy \<^verbatim>\<open>loadPosted\<close> has no \<^verbatim>\<open>try\<close> and writes nothing, \<^verbatim>\<open>postToDiscord\<close>
  makes one attempt per webhook, and \<^verbatim>\<open>main\<close> awaits \<^verbatim>\<open>postToDiscord\<close> directly in its
  loop: there is no timer, no test of the outcomes, and an error thrown by the call leaves
  the loop for the outer \<^verbatim>\<open>catch\<close>, past \<^verbatim>\<open>savePosted\<close>. The configuration, \<^verbatim>\<open>savePosted\<close>
  and the embed are the same.
\<close>

definition loadPosted_part_001 :: "world \<Rightarrow> log + parsed" where
  "loadPosted_part_001 w =
     (case db w of
        Some (Json v) \<Rightarrow> Inr (Records v)
      | Some Malformed \<Rightarrow> Inr NotRecords
      | Some Unparsable \<Rightarrow> Inl SyntaxErrorInMain
      | None \<Rightarrow> Inr (Records []))"

text \<open>The loop over the webhooks (lines 93 to 121 of the copy), entered at index \<open>t\<close>.\<close>

function webhooks_part_001 ::
  "config \<Rightarrow> env \<Rightarrow> nat \<Rightarrow> nat \<Rightarrow> outcome list \<Rightarrow> event list
   \<Rightarrow> outcome list \<times> event list" where
  "webhooks_part_001 cfg e i t results evs =
     (if t < length (WEBHOOK_URLS cfg) then
        webhooks_part_001 cfg e i (t + 1)
          (results @
             [case send e i t 1 of
                None \<Rightarrow>
                  \<lparr>success = True, serverName = nameOf (WEBHOOK_NAMES cfg) t, error = None\<rparr>
              | Some m \<Rightarrow>
                  \<lparr>success = False, serverName = nameOf (WEBHOOK_NAMES cfg) t,
                    error = Some m\<rparr>])
          (evs @ [Send i t 1])
      else (results, evs))"
  by pat_completeness auto
termination
  by (relation "measure (\<lambda>(cfg, e, i, t, results, evs). length (WEBHOOK_URLS cfg) - t)") auto

declare webhooks_part_001.simps [simp del]

definition postToDiscord_part_001 ::
  "config \<Rightarrow> env \<Rightarrow> nat \<Rightarrow> announcement \<Rightarrow> (string + outcome list) \<times> event list" where
  "postToDiscord_part_001 cfg e i announcement =
     (case embed_error e announcement of
        Some m \<Rightarrow> (Inl m, [])
      | None \<Rightarrow>
          (case webhooks_part_001 cfg e i 0 [] [] of
             (results, evs) \<Rightarrow>
               (if length results > 0 \<and> list_all (\<lambda>r. \<not> success r) results
                then Inl ''Failed to post to all Discord webhooks''
                else Inr results,
                evs)))"

text \<open>
  \<^verbatim>\<open>syncToGitHub\<close> of the copy does not create a missing file: \<^verbatim>\<open>readFileSync\<close> throws
  and the \<^verbatim>\<open>catch\<close> returns false.
\<close>

definition syncToGitHub_part_001 :: "config \<Rightarrow> env \<Rightarrow> world \<Rightarrow> bool \<times> world" where
  "syncToGitHub_part_001 cfg e w =
     (let w1 = w\<lparr>trace := trace w @ [SyncToGitHub]\<rparr> in
      if \<not> truthy (env_GITHUB_TOKEN cfg) then
        (False, w1\<lparr>trace := trace w1 @ [Log NoGitHubToken]\<rparr>)
      else if db w1 = None then (False, w1)
      else (octokit_ok e, w1\<lparr>trace := trace w1 @ [GitHubPut (db w1)]\<rparr>))"

definition syncIfNeeded_part_001 :: "config \<Rightarrow> env \<Rightarrow> world \<Rightarrow> world" where
  "syncIfNeeded_part_001 cfg e w =
     (let now = date_now e in
      if now - lastSyncTime w \<ge> SYNC_INTERVAL_MS then
        (case syncToGitHub_part_001 cfg e w of
           (success', w') \<Rightarrow> if success' then w'\<lparr>lastSyncTime := now\<rparr> else w')
      else w)"

text \<open>The variables of this \<^verbatim>\<open>main\<close> that its loop changes: it pushes to \<^verbatim>\<open>posted\<close> itself.\<close>

record loop_state_part_001 =
  posted_part_001 :: "posted_record list"
  newPosted_part_001 :: bool
  newCount_part_001 :: nat
  lw_part_001 :: world

text \<open>
  The body of the loop (lines 279 to 293 of the copy): \<open>Inl\<close> is the error thrown by
  \<^verbatim>\<open>postToDiscord\<close>, with the world at that moment.
\<close>

definition body_part_001 ::
  "config \<Rightarrow> env \<Rightarrow> string set \<Rightarrow> announcement list \<Rightarrow> nat \<Rightarrow> loop_state_part_001
   \<Rightarrow> string \<times> world + loop_state_part_001" where
  "body_part_001 cfg e postedIds announcements i st =
     (let ann = announcements ! i in
      if ann_id ann \<notin> postedIds then
        (case postToDiscord_part_001 cfg e i ann of
           (result, evs) \<Rightarrow>
             (let w' = (lw_part_001 st)
                         \<lparr>trace := trace (lw_part_001 st) @ PostToDiscord i # evs\<rparr>
              in case result of
                   Inl err \<Rightarrow> Inl (err, w')
                 | Inr results \<Rightarrow>
                     Inr (st\<lparr>posted_part_001 :=
                               posted_part_001 st @
                                 [\<lparr>rec_id = ann_id ann, rec_title = ann_title ann,
                                   postedAt = iso_now e i\<rparr>],
                             newPosted_part_001 := True,
                             newCount_part_001 := newCount_part_001 st + 1,
                             lw_part_001 := w'\<rparr>)))
      else Inr st)"

fun loop_part_001 ::
  "config \<Rightarrow> env \<Rightarrow> string set \<Rightarrow> announcement list \<Rightarrow> nat \<Rightarrow> loop_state_part_001
   \<Rightarrow> string \<times> world + loop_state_part_001" where
  "loop_part_001 cfg e postedIds announcements 0 st = Inr st"
| "loop_part_001 cfg e postedIds announcements (Suc i) st =
     (case body_part_001 cfg e postedIds announcements i st of
        Inl thrown \<Rightarrow> Inl thrown
      | Inr st' \<Rightarrow> loop_part_001 cfg e postedIds announcements i st')"

definition main_part_001 :: "config \<Rightarrow> env \<Rightarrow> world \<Rightarrow> world" where
  "main_part_001 cfg e w =
     (case loadPosted_part_001 w of
        Inl thrown \<Rightarrow> say thrown w
      | Inr NotRecords \<Rightarrow> say TypeErrorInMain w
      | Inr (Records posted) \<Rightarrow>
          (let postedIds = set (map rec_id posted) in
           case fetched e of
             Inl err \<Rightarrow> say (ErrorInMain err) w
           | Inr announcements \<Rightarrow>
               if length announcements = 0 then say NoAnnouncementsFound w
               else
                 (case loop_part_001 cfg e postedIds announcements (length announcements)
                         \<lparr>posted_part_001 = posted, newPosted_part_001 = False,
                           newCount_part_001 = 0, lw_part_001 = w\<rparr> of
                    Inl (err, w') \<Rightarrow> say (ErrorInMain err) w'
                  | Inr st \<Rightarrow>
                      if newPosted_part_001 st then
                        snd (syncToGitHub_part_001 cfg e
                               (say (UpdatedDatabase (newCount_part_001 st))
                                  (savePosted (posted_part_001 st) (lw_part_001 st))))
                      else syncIfNeeded_part_001 cfg e
                             (say NoNewAnnouncements (lw_part_001 st)))))"

section \<open>Observations on a cycle\<close>

text \<open>
  The definitions of this section are not part of the program: they name what the
  properties below speak about.
\<close>

text \<open>The per-webhook outcomes of \<^verbatim>\<open>postToDiscord\<close>, before it decides whether to throw.\<close>

definition outcomes :: "config \<Rightarrow> env \<Rightarrow> nat \<Rightarrow> outcome list" where
  "outcomes cfg e i = fst (webhooks cfg e i 0 [] [])"

text \<open>\<^verbatim>\<open>discordSuccess\<close> for the item at index \<open>i\<close> of the feed \<open>anns\<close>.\<close>

definition delivered :: "config \<Rightarrow> env \<Rightarrow> announcement list \<Rightarrow> nat \<Rightarrow> bool" where
  "delivered cfg e anns i =
     (case race (timer_first e i) (fst (postToDiscord cfg e i (anns ! i))) of
        Inr postingResult \<Rightarrow> list_ex success postingResult
      | Inl postError \<Rightarrow> False)"

text \<open>The record \<^verbatim>\<open>main\<close> pushes for the feed item at index \<open>i\<close>.\<close>

definition record_of :: "env \<Rightarrow> announcement list \<Rightarrow> nat \<Rightarrow> posted_record" where
  "record_of e anns i =
     \<lparr>rec_id = ann_id (anns ! i), rec_title = ann_title (anns ! i), postedAt = iso_now e i\<rparr>"

text \<open>
  The indices of the feed items whose id is not in the store, in the order in which the
  loop visits them; and those among them that are delivered.
\<close>

definition candidates :: "posted_record list \<Rightarrow> announcement list \<Rightarrow> nat list" where
  "candidates posted anns =
     filter (\<lambda>i. ann_id (anns ! i) \<notin> set (map rec_id posted)) (rev [0 ..< length anns])"

definition confirmed ::
  "config \<Rightarrow> env \<Rightarrow> posted_record list \<Rightarrow> announcement list \<Rightarrow> nat list" where
  "confirmed cfg e posted anns = filter (delivered cfg e anns) (candidates posted anns)"

text \<open>The records a cycle appends to the store \<open>posted\<close>.\<close>

definition appended :: "config \<Rightarrow> env \<Rightarrow> posted_record list \<Rightarrow> posted_record list" where
  "appended cfg e posted =
     (case fetched e of
        Inl err \<Rightarrow> []
      | Inr anns \<Rightarrow> map (record_of e anns) (confirmed cfg e posted anns))"

text \<open>The events of one cycle: what \<^verbatim>\<open>main\<close> adds to the trace.\<close>

definition cycle_events :: "config \<Rightarrow> env \<Rightarrow> world \<Rightarrow> event list" where
  "cycle_events cfg e w = drop (length (trace w)) (trace (main cfg e w))"

text \<open>The events of \<^verbatim>\<open>loadPosted\<close>, of a backup, of the loop and of the end of a cycle.\<close>

definition load_events :: "world \<Rightarrow> event list" where
  "load_events w =
     (case db w of Some (Json v) \<Rightarrow> [] | Some Malformed \<Rightarrow> [] | _ \<Rightarrow> [WriteFile []])"

definition backup_events :: "config \<Rightarrow> posted_record list \<Rightarrow> event list" where
  "backup_events cfg v =
     [SyncToGitHub,
      if truthy (env_GITHUB_TOKEN cfg) then GitHubPut (Some (Json v)) else Log NoGitHubToken]"

definition dispatch_events ::
  "config \<Rightarrow> env \<Rightarrow> announcement list \<Rightarrow> nat list \<Rightarrow> event list" where
  "dispatch_events cfg e anns is =
     concat (map (\<lambda>i. PostToDiscord i #
                        (if timer_first e i then [] else snd (postToDiscord cfg e i (anns ! i))))
               is)"

definition closing_events ::
  "config \<Rightarrow> env \<Rightarrow> world \<Rightarrow> posted_record list \<Rightarrow> event list" where
  "closing_events cfg e w new =
     (if new \<noteq> [] then
        [WriteFile (stored w @ new), Log (UpdatedDatabase (length new))] @
        backup_events cfg (stored w @ new)
      else
        Log NoNewAnnouncements #
        (if SYNC_INTERVAL_MS \<le> date_now e - lastSyncTime w then backup_events cfg (stored w)
         else []))"

text \<open>Webhook \<open>t\<close> is reached within the three attempts; its outcome; its attempts.\<close>

definition reached :: "env \<Rightarrow> nat \<Rightarrow> nat \<Rightarrow> bool" where
  "reached e i t = (send e i t 1 = None \<or> send e i t 2 = None \<or> send e i t 3 = None)"

definition outcome_at :: "config \<Rightarrow> env \<Rightarrow> nat \<Rightarrow> nat \<Rightarrow> outcome" where
  "outcome_at cfg e i t =
     (if reached e i t
      then \<lparr>success = True, serverName = nameOf (WEBHOOK_NAMES cfg) t, error = None\<rparr>
      else \<lparr>success = False, serverName = nameOf (WEBHOOK_NAMES cfg) t, error = send e i t 3\<rparr>)"

definition sends_at :: "env \<Rightarrow> nat \<Rightarrow> nat \<Rightarrow> event list" where
  "sends_at e i t =
     (if send e i t 1 = None then [Send i t 1]
      else if send e i t 2 = None then [Send i t 1, Send i t 2]
      else [Send i t 1, Send i t 2, Send i t 3])"

text \<open>The attempt numbers sent to webhook \<open>t\<close> for feed item \<open>i\<close>, in order.\<close>

fun sends_to :: "nat \<Rightarrow> nat \<Rightarrow> event list \<Rightarrow> nat list" where
  "sends_to i t [] = []"
| "sends_to i t (Send j u k # evs) =
     (if j = i \<and> u = t then k # sends_to i t evs else sends_to i t evs)"
| "sends_to i t (ev # evs) = sends_to i t evs"

text \<open>The feed indices \<^verbatim>\<open>postToDiscord\<close> was called on, in order.\<close>

fun dispatched :: "event list \<Rightarrow> nat list" where
  "dispatched [] = []"
| "dispatched (PostToDiscord i # evs) = i # dispatched evs"
| "dispatched (ev # evs) = dispatched evs"

fun is_delivery :: "event \<Rightarrow> bool" where
  "is_delivery (PostToDiscord i) = True"
| "is_delivery (Send i t k) = True"
| "is_delivery ev = False"

fun is_write :: "event \<Rightarrow> bool" where
  "is_write (WriteFile v) = True"
| "is_write ev = False"

text \<open>The ids of the feed an environment answers are pairwise distinct.\<close>

definition distinct_feed :: "env \<Rightarrow> bool" where
  "distinct_feed e =
     (case fetched e of Inl err \<Rightarrow> True | Inr anns \<Rightarrow> distinct (map ann_id anns))"

section \<open>Example inputs\<close>

text \<open>Configurations: no webhook; one webhook and a GitHub token; two webhooks with one
  name given, so that the second is named \<open>Server 2\<close> by the padding.\<close>

definition no_hooks :: config where
  "no_hooks = \<lparr>env_WEBHOOK_URLS = None, env_WEBHOOK_NAMES = None, env_GITHUB_TOKEN = None\<rparr>"

definition one_hook :: config where
  "one_hook =
     \<lparr>env_WEBHOOK_URLS = Some ''https://d/api/webhooks/1/a'', env_WEBHOOK_NAMES = None,
      env_GITHUB_TOKEN = Some ''ghp_token''\<rparr>"

definition two_hooks :: config where
  "two_hooks =
     \<lparr>env_WEBHOOK_URLS = Some ''https://d/api/webhooks/1/a,https://d/api/webhooks/2/b'',
      env_WEBHOOK_NAMES = Some ''Alpha'', env_GITHUB_TOKEN = None\<rparr>"

text \<open>
  An embed builder that checks the title as the builder of discord.js does: it throws on
  an empty title and on a title of more than 256 characters.
\<close>

definition builder :: "announcement \<Rightarrow> string option" where
  "builder a =
     (if ann_title a = [] \<or> 256 < length (ann_title a) then Some ''Invalid string length''
      else None)"

text \<open>Three announcements, \<open>notice1\<close> the oldest; and an item the feed lists without a title.\<close>

definition untitled :: announcement where
  "untitled =
     \<lparr>ann_id = ''n4'', ann_title = [], pubDate = ''2025-01-04 09:00:00'',
      link = ''https://www.bracu.ac.bd/n4'', description = []\<rparr>"

definition notice1 :: announcement where
  "notice1 =
     \<lparr>ann_id = ''n1'', ann_title = ''Exam schedule'', pubDate = ''2025-01-01 09:00:00'',
      link = ''https://www.bracu.ac.bd/n1'', description = []\<rparr>"

definition notice2 :: announcement where
  "notice2 =
     \<lparr>ann_id = ''n2'', ann_title = ''Holiday notice'', pubDate = ''2025-01-02 09:00:00'',
      link = ''https://www.bracu.ac.bd/n2'', description = []\<rparr>"

definition notice3 :: announcement where
  "notice3 =
     \<lparr>ann_id = ''n3'', ann_title = ''Fee deadline'', pubDate = ''2025-01-03 09:00:00'',
      link = ''https://www.bracu.ac.bd/n3'', description = []\<rparr>"

text \<open>
  A quiet day: the feed lists the three announcements newest first, every send resolves
  at its first attempt, no timer fires.
\<close>

definition calm :: env where
  "calm =
     \<lparr>fetched = Inr [notice3, notice2, notice1], embed_error = builder,
      send = (\<lambda>i t k. None),
      timer_first = (\<lambda>i. False),
      iso_now = (\<lambda>i. ''2025-01-04T00:00:0'' @ decimal i @ ''.000Z''),
      date_now = 1000, octokit_ok = True\<rparr>"

text \<open>The feed cannot be fetched; the feed is empty and the last backup is a day old.\<close>

definition feed_down :: env where
  "feed_down = calm\<lparr>fetched := Inl ''RSS feed error: 503 Service Unavailable''\<rparr>"

definition feed_empty :: env where
  "feed_empty = calm\<lparr>fetched := Inr [], date_now := 90000000\<rparr>"

text \<open>The feed lists the same item twice.\<close>

definition relisted :: env where
  "relisted = calm\<lparr>fetched := Inr [notice2, notice2]\<rparr>"

text \<open>The same, and every attempt for the first copy in the feed is rejected.\<close>

definition half_listed :: env where
  "half_listed =
     calm\<lparr>fetched := Inr [notice2, notice2],
          send := (\<lambda>i t k. if i = 0 then Some ''HTTP 503'' else None)\<rparr>"

text \<open>The feed lists only the item without a title.\<close>

definition nameless :: env where
  "nameless = calm\<lparr>fetched := Inr [untitled]\<rparr>"

definition echo :: env where
  "echo = calm\<lparr>fetched := Inr [notice1, notice2, notice1]\<rparr>"

text \<open>
  A slow webhook: the first two attempts run into their timers of 10 and 20 seconds, so
  the third attempt, which succeeds, starts after the 30 second timer of \<^verbatim>\<open>main\<close> has
  fired.
\<close>

definition late :: env where
  "late =
     calm\<lparr>fetched := Inr [notice1],
          send := (\<lambda>i t k.
            if k = 1 then Some ''Discord webhook request timed out after 10 seconds''
            else if k = 2 then Some ''Discord webhook request timed out after 20 seconds''
            else None),
          timer_first := (\<lambda>i. True)\<rparr>"

text \<open>Every attempt for the newest of two items is rejected by every webhook.\<close>

definition outage :: env where
  "outage =
     calm\<lparr>fetched := Inr [notice2, notice1],
          send := (\<lambda>i t k. if i = 0 then Some ''HTTP 503'' else None)\<rparr>"

text \<open>Every attempt at the first webhook is rejected; the second webhook answers at once.\<close>

definition first_hook_down :: env where
  "first_hook_down =
     \<lparr>fetched = Inr [], embed_error = builder,
      send = (\<lambda>i t k. if t = 0 then Some (''HTTP 500 #'' @ decimal k) else None),
      timer_first = (\<lambda>i. False), iso_now = (\<lambda>i. ''2025-01-01T00:00:00.000Z''),
      date_now = 0, octokit_ok = False\<rparr>"

text \<open>
  Worlds: no database file; a file that does not parse; a file that holds \<^verbatim>\<open>{}\<close>; a
  file with one record.
\<close>

definition absent :: world where
  "absent = \<lparr>db = None, lastSyncTime = 0, trace = [], background = []\<rparr>"

definition corrupt :: world where
  "corrupt = \<lparr>db = Some Unparsable, lastSyncTime = 0, trace = [], background = []\<rparr>"

definition malformed :: world where
  "malformed = \<lparr>db = Some Malformed, lastSyncTime = 0, trace = [], background = []\<rparr>"

definition settled :: world where
  "settled =
     \<lparr>db = Some (Json [\<lparr>rec_id = ''n1'', rec_title = ''Exam schedule'',
                          postedAt = ''2025-01-01T10:00:00.000Z''\<rparr>]),
      lastSyncTime = 0, trace = [], background = []\<rparr>"

section \<open>Lemmas on the dispatcher, the loop and the cycle\<close>

subsection \<open>The dispatcher in closed form\<close>

text \<open>The retry loop unrolled, then the loop over the webhooks by induction on what is left.\<close>

lemma attempts_4: "attempts e name i t 4 results l = (results, False, l, [])"
  by (subst attempts.simps) simp

lemma attempts_3:
  "attempts e name i t 3 results l =
     (case send e i t 3 of
        None \<Rightarrow> (results @ [\<lparr>success = True, serverName = name, error = None\<rparr>], True, l, [Send i t 3])
      | Some m \<Rightarrow> (results, False, Some m, [Send i t 3]))"
  by (subst attempts.simps) (simp add: attempts_4 split: option.splits)

lemma attempts_2:
  "attempts e name i t 2 results l =
     (case send e i t 2 of
        None \<Rightarrow> (results @ [\<lparr>success = True, serverName = name, error = None\<rparr>], True, l, [Send i t 2])
      | Some m \<Rightarrow>
          (case attempts e name i t 3 results (Some m) of
             (r, s, l', evs) \<Rightarrow> (r, s, l', Send i t 2 # evs)))"
  by (subst attempts.simps) (simp split: option.splits)

lemma attempts_1:
  "attempts e name i t (Suc 0) results l =
     (case send e i t (Suc 0) of
        None \<Rightarrow> (results @ [\<lparr>success = True, serverName = name, error = None\<rparr>], True, l, [Send i t (Suc 0)])
      | Some m \<Rightarrow>
          (case attempts e name i t 2 results (Some m) of
             (r, s, l', evs) \<Rightarrow> (r, s, l', Send i t (Suc 0) # evs)))"
  by (subst attempts.simps) (simp add: numeral_2_eq_2 [symmetric] split: option.splits)

lemma attempts_unroll:
  "attempts e name i t (Suc 0) results None =
     (if reached e i t
      then (results @ [\<lparr>success = True, serverName = name, error = None\<rparr>], True,
            (if send e i t 1 = None then None else if send e i t 2 = None then send e i t 1 else send e i t 2),
            sends_at e i t)
      else (results, False, send e i t 3, sends_at e i t))"
  by (auto simp add: attempts_1 attempts_2 attempts_3 reached_def sends_at_def
      split: option.splits)

lemma webhooks_eq:
  "t \<le> length (WEBHOOK_URLS cfg) \<Longrightarrow>
   webhooks cfg e i t results evs =
     (results @ map (outcome_at cfg e i) [t ..< length (WEBHOOK_URLS cfg)],
      evs @ concat (map (sends_at e i) [t ..< length (WEBHOOK_URLS cfg)]))"
proof (induction "length (WEBHOOK_URLS cfg) - t" arbitrary: t results evs)
  case 0
  then show ?case by (simp add: webhooks.simps)
next
  case (Suc d)
  then have lt: "t < length (WEBHOOK_URLS cfg)" and d: "d = length (WEBHOOK_URLS cfg) - Suc t"
    and le: "Suc t \<le> length (WEBHOOK_URLS cfg)"
    by simp_all
  have nf: "\<not> reached e i t \<Longrightarrow> \<exists>m. send e i t 3 = Some m"
    by (auto simp: reached_def)
  show ?case
    using lt nf
    by (subst webhooks.simps)
       (auto simp: attempts_unroll Suc.hyps(1) [OF d le] upt_conv_Cons outcome_at_def)
qed

lemma postToDiscord_events:
  "snd (postToDiscord cfg e i a) =
     (if embed_error e a = None
      then concat (map (sends_at e i) [0 ..< length (WEBHOOK_URLS cfg)])
      else [])"
  by (auto simp add: postToDiscord_def webhooks_eq)

subsection \<open>The loop of main\<close>

lemma body_successful:
  "successfulAnnouncements (body cfg e ids anns i st) =
     successfulAnnouncements st @
       (if ann_id (anns ! i) \<notin> ids \<and> delivered cfg e anns i then [record_of e anns i] else [])"
  by (simp add: body_def delivered_def record_of_def Let_def split: prod.splits sum.splits)

lemma body_newPosted:
  "newPosted (body cfg e ids anns i st) =
     (newPosted st \<or> ann_id (anns ! i) \<notin> ids \<and> delivered cfg e anns i)"
  by (simp add: body_def delivered_def Let_def split: prod.splits sum.splits)

lemma body_trace:
  "trace (lw (body cfg e ids anns i st)) =
     trace (lw st) @
       (if ann_id (anns ! i) \<notin> ids
        then PostToDiscord i #
             (if timer_first e i then [] else snd (postToDiscord cfg e i (anns ! i)))
        else [])"
  by (simp add: body_def Let_def split: prod.splits sum.splits)

lemma body_db: "db (lw (body cfg e ids anns i st)) = db (lw st)"
  by (simp add: body_def Let_def split: prod.splits sum.splits)

lemma body_lastSyncTime: "lastSyncTime (lw (body cfg e ids anns i st)) = lastSyncTime (lw st)"
  by (simp add: body_def Let_def split: prod.splits sum.splits)

lemma loop_successful:
  "successfulAnnouncements (loop cfg e ids anns n st) =
     successfulAnnouncements st @
       map (record_of e anns)
         (filter (\<lambda>i. ann_id (anns ! i) \<notin> ids \<and> delivered cfg e anns i) (rev [0 ..< n]))"
  by (induction n arbitrary: st) (simp_all add: body_successful)

lemma loop_newPosted:
  "newPosted (loop cfg e ids anns n st) =
     (newPosted st \<or> filter (\<lambda>i. ann_id (anns ! i) \<notin> ids \<and> delivered cfg e anns i) (rev [0 ..< n]) \<noteq> [])"
  by (induction n arbitrary: st) (auto simp add: body_newPosted)

lemma loop_trace:
  "trace (lw (loop cfg e ids anns n st)) =
     trace (lw st) @
       dispatch_events cfg e anns (filter (\<lambda>i. ann_id (anns ! i) \<notin> ids) (rev [0 ..< n]))"
  by (induction n arbitrary: st) (simp_all add: body_trace dispatch_events_def)

lemma loop_db: "db (lw (loop cfg e ids anns n st)) = db (lw st)"
  by (induction n arbitrary: st) (simp_all add: body_db)

lemma loop_lastSyncTime: "lastSyncTime (lw (loop cfg e ids anns n st)) = lastSyncTime (lw st)"
  by (induction n arbitrary: st) (simp_all add: body_lastSyncTime)

subsection \<open>The store and the backup\<close>

lemma loadPosted_fst: "db w \<noteq> Some Malformed \<Longrightarrow> fst (loadPosted w) = Records (stored w)"
  by (simp add: stored_def loadPosted_def split: option.splits db_file.splits)

lemma loadPosted_db: "db w \<noteq> Some Malformed \<Longrightarrow> db (snd (loadPosted w)) = Some (Json (stored w))"
  by (simp add: stored_def loadPosted_def writeFileSync_def split: option.splits db_file.splits)

lemma loadPosted_Malformed: "db w = Some Malformed \<Longrightarrow> loadPosted w = (NotRecords, w)"
  by (simp add: loadPosted_def)

lemma stored_Malformed: "db w = Some Malformed \<Longrightarrow> stored w = []"
  by (simp add: stored_def loadPosted_def)

lemma main_Malformed: "db w = Some Malformed \<Longrightarrow> main cfg e w = say TypeErrorInMain w"
  by (simp add: main_def loadPosted_Malformed)

lemma loadPosted_trace: "trace (snd (loadPosted w)) = trace w @ load_events w"
  by (simp add: loadPosted_def writeFileSync_def load_events_def split: option.splits db_file.splits)

lemma loadPosted_lastSyncTime: "lastSyncTime (snd (loadPosted w)) = lastSyncTime w"
  by (simp add: loadPosted_def writeFileSync_def split: option.splits db_file.splits)

lemma stored_Json: "db w = Some (Json v) \<Longrightarrow> stored w = v"
  by (simp add: stored_def loadPosted_def)

lemma syncToGitHub_db: "db w = Some (Json v) \<Longrightarrow> db (snd (syncToGitHub cfg e w)) = Some (Json v)"
  by (simp add: syncToGitHub_def Let_def)

lemma syncToGitHub_trace:
  "db w = Some (Json v) \<Longrightarrow> trace (snd (syncToGitHub cfg e w)) = trace w @ backup_events cfg v"
  by (simp add: syncToGitHub_def Let_def backup_events_def)

lemma syncToGitHub_lastSyncTime: "lastSyncTime (snd (syncToGitHub cfg e w)) = lastSyncTime w"
  by (simp add: syncToGitHub_def Let_def writeFileSync_def)

lemma syncIfNeeded_db: "db w = Some (Json v) \<Longrightarrow> db (syncIfNeeded cfg e w) = Some (Json v)"
  by (simp add: syncIfNeeded_def Let_def syncToGitHub_db split: prod.splits)
     (metis snd_conv syncToGitHub_db)

lemma syncIfNeeded_trace:
  "db w = Some (Json v) \<Longrightarrow>
   trace (syncIfNeeded cfg e w) =
     trace w @ (if SYNC_INTERVAL_MS \<le> date_now e - lastSyncTime w then backup_events cfg v else [])"
  by (simp add: syncIfNeeded_def Let_def split: prod.splits)
     (metis snd_conv syncToGitHub_trace)

lemma say_simps:
  "db (say l w) = db w" "trace (say l w) = trace w @ [Log l]" "lastSyncTime (say l w) = lastSyncTime w"
  by (simp_all add: say_def)

lemma savePosted_simps:
  "db (savePosted v w) = Some (Json v)" "trace (savePosted v w) = trace w @ [WriteFile v]"
  "lastSyncTime (savePosted v w) = lastSyncTime w"
  by (simp_all add: savePosted_def writeFileSync_def)

subsection \<open>One cycle: the store, the file and the events\<close>

lemma confirmed_eq:
  "confirmed cfg e posted anns =
     filter (\<lambda>i. ann_id (anns ! i) \<notin> set (map rec_id posted) \<and> delivered cfg e anns i) (rev [0 ..< length anns])"
  by (simp add: confirmed_def candidates_def conj_commute)

lemma main_db:
  assumes "db w \<noteq> Some Malformed"
  shows "db (main cfg e w) = Some (Json (stored w @ appended cfg e (stored w)))"
proof (cases "loadPosted w")
  case (Pair loaded w1)
  then have p: "loaded = Records (stored w)" and d: "db w1 = Some (Json (stored w))"
    using loadPosted_fst [OF assms] loadPosted_db [OF assms] by simp_all
  show ?thesis
    by (simp add: main_def Pair Let_def say_simps appended_def d p loop_db loop_successful confirmed_eq
        syncIfNeeded_db [where v = "stored w"] syncToGitHub_db savePosted_simps
        split: sum.splits)
qed

lemma main_stored:
  "db w \<noteq> Some Malformed \<Longrightarrow> stored (main cfg e w) = stored w @ appended cfg e (stored w)"
  by (simp add: stored_Json [OF main_db])

lemma main_Malformed_db: "db w = Some Malformed \<Longrightarrow> db (main cfg e w) = Some Malformed"
  by (simp add: main_Malformed say_simps)

lemma main_stored_cases:
  "stored (main cfg e w) =
     stored w @ (if db w = Some Malformed then [] else appended cfg e (stored w))"
  by (simp add: main_stored stored_Malformed main_Malformed_db)

lemma main_trace:
  assumes "db w \<noteq> Some Malformed"
  shows "trace (main cfg e w) =
     trace w @ load_events w @
       (case fetched e of
          Inl err \<Rightarrow> [Log (ErrorInMain err)]
        | Inr anns \<Rightarrow>
            if anns = [] then [Log NoAnnouncementsFound]
            else dispatch_events cfg e anns (candidates (stored w) anns) @
                 closing_events cfg e w (appended cfg e (stored w)))"
proof (cases "loadPosted w")
  case (Pair loaded w1)
  then have p: "loaded = Records (stored w)" and d: "db w1 = Some (Json (stored w))"
    and t: "trace w1 = trace w @ load_events w" and l: "lastSyncTime w1 = lastSyncTime w"
    using loadPosted_fst [OF assms] loadPosted_db [OF assms] loadPosted_trace [of w]
      loadPosted_lastSyncTime [of w] by simp_all
  define posted where "posted = stored w"
  show ?thesis
  proof (cases "fetched e")
    case (Inl err)
    then show ?thesis by (simp add: main_def Pair p Let_def say_simps t)
  next
    case (Inr anns)
    show ?thesis
    proof (cases "anns = []")
      case True
      then show ?thesis by (simp add: main_def Pair p Let_def say_simps t Inr)
    next
      case False
      define st where "st = loop cfg e (set (map rec_id posted)) anns (length anns)
          \<lparr>successfulAnnouncements = [], newPosted = False, newCount = 0, lw = w1\<rparr>"
      have s: "successfulAnnouncements st = appended cfg e (stored w)"
        by (simp add: st_def loop_successful appended_def Inr confirmed_eq posted_def)
      have tr: "trace (lw st) =
          trace w @ load_events w @ dispatch_events cfg e anns (candidates (stored w) anns)"
        by (simp add: st_def loop_trace candidates_def posted_def t)
      have dbst: "db (lw st) = Some (Json (stored w))"
        by (simp add: st_def loop_db d)
      have ls: "lastSyncTime (lw st) = lastSyncTime w"
        by (simp add: st_def loop_lastSyncTime l)
      have np: "newPosted st = (appended cfg e (stored w) \<noteq> [])"
        by (simp add: st_def loop_newPosted appended_def Inr confirmed_eq posted_def)
      have m: "main cfg e w =
          (if length (successfulAnnouncements st) > 0 then
             snd (syncToGitHub cfg e
                    (say (UpdatedDatabase (length (successfulAnnouncements st)))
                       (savePosted (posted @ successfulAnnouncements st) (lw st))))
           else if newPosted st then say NoneSaved (lw st)
           else syncIfNeeded cfg e (say NoNewAnnouncements (lw st)))"
        using False by (simp add: main_def Pair p Inr Let_def st_def posted_def)
      show ?thesis
      proof (cases "appended cfg e (stored w) = []")
        case True
        have "db (say NoNewAnnouncements (lw st)) = Some (Json (stored w))"
          by (simp add: say_simps dbst)
        from syncIfNeeded_trace [OF this, of cfg e]
        show ?thesis
          using False True by (simp add: m s np Inr say_simps tr ls closing_events_def)
      next
        case new: False
        have "db (say (UpdatedDatabase (length (appended cfg e (stored w))))
                 (savePosted (stored w @ appended cfg e (stored w)) (lw st))) =
              Some (Json (stored w @ appended cfg e (stored w)))"
          by (simp add: say_simps savePosted_simps)
        from syncToGitHub_trace [OF this, of cfg e]
        show ?thesis
          using False new
          by (simp add: m s posted_def Inr say_simps savePosted_simps tr closing_events_def)
      qed
    qed
  qed
qed

lemma cycle_events_eq:
  "db w \<noteq> Some Malformed \<Longrightarrow>
   cycle_events cfg e w =
     load_events w @
       (case fetched e of
          Inl err \<Rightarrow> [Log (ErrorInMain err)]
        | Inr anns \<Rightarrow>
            if anns = [] then [Log NoAnnouncementsFound]
            else dispatch_events cfg e anns (candidates (stored w) anns) @
                 closing_events cfg e w (appended cfg e (stored w)))"
  by (simp add: cycle_events_def main_trace)

lemma cycle_events_Malformed:
  "db w = Some Malformed \<Longrightarrow> cycle_events cfg e w = [Log TypeErrorInMain]"
  by (simp add: cycle_events_def main_Malformed say_simps)

subsection \<open>Reading the events\<close>

lemma sends_to_append: "sends_to i t (xs @ ys) = sends_to i t xs @ sends_to i t ys"
  by (induction i t xs rule: sends_to.induct) simp_all

lemma sends_to_sends_at:
  "sends_to i t (sends_at e i u) =
     (if u = t then (if send e i t 1 = None then [1] else if send e i t 2 = None then [1, 2] else [1, 2, 3])
      else [])"
  by (simp add: sends_at_def)

lemma sends_to_concat:
  "sends_to i t (concat (map (sends_at e i) [0 ..< n])) =
     (if t < n then (if send e i t 1 = None then [1] else if send e i t 2 = None then [1, 2] else [1, 2, 3])
      else [])"
  by (induction n) (auto simp add: sends_to_append sends_to_sends_at)

lemma Send_in_sends_at: "Send i t 1 \<in> set (sends_at e i t)"
  by (simp add: sends_at_def)

lemma dispatched_append: "dispatched (xs @ ys) = dispatched xs @ dispatched ys"
  by (induction xs rule: dispatched.induct) simp_all

lemma dispatched_sends_at: "dispatched (sends_at e i t) = []"
  by (simp add: sends_at_def)

lemma dispatched_sends: "dispatched (concat (map (sends_at e i) ts)) = []"
  by (induction ts) (simp_all add: dispatched_append dispatched_sends_at)

lemma dispatched_postToDiscord: "dispatched (snd (postToDiscord cfg e i a)) = []"
  by (simp add: postToDiscord_events dispatched_sends)

lemma dispatched_dispatch_events: "dispatched (dispatch_events cfg e anns is) = is"
  by (induction "is") (simp_all add: dispatch_events_def dispatched_append dispatched_postToDiscord)

lemma dispatched_load_events: "dispatched (load_events w) = []"
  by (simp add: load_events_def split: option.splits db_file.splits)

lemma dispatched_closing_events: "dispatched (closing_events cfg e w new) = []"
  by (simp add: closing_events_def backup_events_def)

lemma dispatched_cycle:
  "db w \<noteq> Some Malformed \<Longrightarrow>
   dispatched (cycle_events cfg e w) =
     (case fetched e of Inl err \<Rightarrow> [] | Inr anns \<Rightarrow> candidates (stored w) anns)"
  by (simp add: cycle_events_eq dispatched_append dispatched_load_events
      dispatched_dispatch_events dispatched_closing_events candidates_def split: sum.splits)

lemma main_lastSyncTime_early:
  assumes "fetched e = Inl err \<or> fetched e = Inr []"
  shows "lastSyncTime (main cfg e w) = lastSyncTime w"
proof (cases "loadPosted w")
  case (Pair loaded w1)
  then have "lastSyncTime w1 = lastSyncTime w"
    using loadPosted_lastSyncTime [of w] by simp
  then show ?thesis
    using assms by (cases loaded) (auto simp add: main_def Pair say_simps Let_def)
qed

subsection \<open>When an item counts as delivered\<close>

lemma success_outcome_at: "success (outcome_at cfg e i t) = reached e i t"
  by (simp add: outcome_at_def)

lemma outcomes_map: "outcomes cfg e i = map (outcome_at cfg e i) [0 ..< length (WEBHOOK_URLS cfg)]"
  by (simp add: outcomes_def webhooks_eq)

lemma all_failed_iff:
  "list_all (\<lambda>r. \<not> success r) (outcomes cfg e i) =
     (\<forall>t<length (WEBHOOK_URLS cfg). \<not> reached e i t)"
  by (auto simp add: outcomes_map list_all_iff success_outcome_at)

lemma some_success_iff:
  "list_ex success (outcomes cfg e i) = (\<exists>t<length (WEBHOOK_URLS cfg). reached e i t)"
  by (auto simp add: outcomes_map list_ex_iff success_outcome_at)

lemma postToDiscord_result:
  "fst (postToDiscord cfg e i a) =
     (case embed_error e a of
        Some m \<Rightarrow> Inl m
      | None \<Rightarrow>
          if WEBHOOK_URLS cfg \<noteq> [] \<and> list_all (\<lambda>r. \<not> success r) (outcomes cfg e i)
          then Inl ''Failed to post to all Discord webhooks after multiple retries''
          else Inr (outcomes cfg e i))"
  by (simp add: postToDiscord_def outcomes_def split: prod.splits option.splits)
     (simp add: webhooks_eq)

lemma delivered_iff:
  "delivered cfg e anns i =
     (\<not> timer_first e i \<and> embed_error e (anns ! i) = None \<and>
      (\<exists>t<length (WEBHOOK_URLS cfg). reached e i t))"
  by (auto simp add: delivered_def race_def postToDiscord_result some_success_iff all_failed_iff
      split: option.splits)

lemma splitOn_nonempty: "splitOn c s \<noteq> []"
  by (induction s) (simp_all split: list.splits)

lemma no_webhooks_iff: "(WEBHOOK_URLS cfg = []) = (\<not> truthy (env_WEBHOOK_URLS cfg))"
  by (simp add: WEBHOOK_URLS_def splitOn_nonempty)

lemma appended_no_webhooks: "WEBHOOK_URLS cfg = [] \<Longrightarrow> appended cfg e posted = []"
  by (simp add: appended_def confirmed_def delivered_iff split: sum.splits)

lemma run_no_webhooks: "WEBHOOK_URLS cfg = [] \<Longrightarrow> stored (run cfg es w) = stored w"
  by (induction es arbitrary: w) (simp_all add: main_stored_cases appended_no_webhooks)

subsection \<open>The records a cycle appends\<close>

lemma filter_single:
  assumes "distinct xs" and "i \<in> set xs" and "P i" and "\<forall>j\<in>set xs. j \<noteq> i \<longrightarrow> \<not> P j"
  shows "filter P xs = [i]"
  using assms
proof (induction xs)
  case Nil
  then show ?case by simp
next
  case (Cons a xs)
  show ?case
  proof (cases "a = i")
    case True
    then have "\<forall>j\<in>set xs. \<not> P j"
      using Cons.prems(1,4) by auto
    then have "filter P xs = []"
      by (simp add: filter_empty_conv)
    then show ?thesis
      using True Cons.prems(3) by simp
  next
    case False
    then have "i \<in> set xs" and "\<not> P a"
      using Cons.prems(2,4) by auto
    moreover have "distinct xs" and "\<forall>j\<in>set xs. j \<noteq> i \<longrightarrow> \<not> P j"
      using Cons.prems(1,4) by simp_all
    ultimately show ?thesis
      using Cons.IH Cons.prems(3) by simp
  qed
qed

lemma set_confirmed:
  "set (confirmed cfg e posted anns) =
     {i. i < length anns \<and> ann_id (anns ! i) \<notin> set (map rec_id posted) \<and> delivered cfg e anns i}"
  by (auto simp add: confirmed_eq)

lemma distinct_confirmed: "distinct (confirmed cfg e posted anns)"
  by (simp add: confirmed_eq)

lemma rec_id_record_of: "rec_id (record_of e anns i) = ann_id (anns ! i)"
  by (simp add: record_of_def)

lemma delivered_by_result:
  "\<not> timer_first e i \<Longrightarrow> fst (postToDiscord cfg e i (anns ! i)) = Inr rs \<Longrightarrow>
   list_ex success rs \<Longrightarrow> delivered cfg e anns i"
  by (simp add: delivered_def race_def)

lemma save_in_cycle:
  "db w \<noteq> Some Malformed \<Longrightarrow> fetched e = Inr anns \<Longrightarrow> appended cfg e (stored w) \<noteq> [] \<Longrightarrow>
   WriteFile (stored (main cfg e w)) \<in> set (cycle_events cfg e w)"
  by (cases "anns = []")
     (simp_all add: cycle_events_eq main_stored closing_events_def appended_def confirmed_def
       candidates_def)

lemma filter_delivery_load: "filter is_delivery (load_events w) = []"
  by (simp add: load_events_def split: option.splits db_file.splits)

lemma filter_delivery_closing: "filter is_delivery (closing_events cfg e w new) = []"
  by (simp add: closing_events_def backup_events_def)

lemma filter_write_closing: "filter is_write (closing_events cfg e w []) = []"
  by (simp add: closing_events_def backup_events_def)

lemma load_events_Json: "db w = Some (Json v) \<Longrightarrow> load_events w = []"
  by (simp add: load_events_def)

lemma candidates_known:
  "\<forall>a\<in>set anns. ann_id a \<in> set (map rec_id posted) \<Longrightarrow> candidates posted anns = []"
  by (simp add: candidates_def filter_empty_conv)

lemma ids_appended:
  "fetched e = Inr anns \<Longrightarrow>
   map rec_id (appended cfg e posted) = map (\<lambda>i. ann_id (anns ! i)) (confirmed cfg e posted anns)"
  by (simp add: appended_def record_of_def comp_def)

lemma nth_ids: "map (\<lambda>i. ann_id (anns ! i)) [0 ..< length anns] = map ann_id anns"
  by (rule nth_equalityI) simp_all

lemma distinct_ids_confirmed:
  assumes "distinct (map ann_id anns)"
  shows "distinct (map (\<lambda>i. ann_id (anns ! i)) (confirmed cfg e posted anns))"
proof -
  have "distinct (map (\<lambda>i. ann_id (anns ! i)) [0 ..< length anns])"
    using assms by (simp only: nth_ids)
  then have "distinct (map (\<lambda>i. ann_id (anns ! i)) (rev [0 ..< length anns]))"
    by (simp only: rev_map [symmetric] distinct_rev)
  then show ?thesis
    unfolding confirmed_eq by (rule distinct_map_filter)
qed

lemma main_distinct:
  assumes "distinct (map rec_id (stored w))"
    and "case fetched e of Inl err \<Rightarrow> True | Inr anns \<Rightarrow> distinct (map ann_id anns)"
  shows "distinct (map rec_id (stored (main cfg e w)))"
proof (cases "db w = Some Malformed")
  case True
  then show ?thesis
    using assms(1) by (simp add: main_stored_cases)
next
  case usable: False
  show ?thesis
  proof (cases "fetched e")
    case (Inl err)
    then show ?thesis
      using assms(1) by (simp add: main_stored [OF usable] appended_def)
  next
    case (Inr anns)
    then have d: "distinct (map ann_id anns)"
      using assms(2) by simp
    have new: "set (map rec_id (appended cfg e (stored w))) \<inter> set (map rec_id (stored w)) = {}"
      by (auto simp add: ids_appended [OF Inr] set_confirmed)
    show ?thesis
      using assms(1) new distinct_ids_confirmed [OF d, of cfg e "stored w"]
      by (simp add: main_stored [OF usable] ids_appended [OF Inr] Int_commute)
  qed
qed

lemma not_delivered_all_failed:
  "list_all (\<lambda>r. \<not> success r) (outcomes cfg e i) \<Longrightarrow> \<not> delivered cfg e anns i"
  by (simp add: delivered_iff all_failed_iff)

lemma record_in_appended:
  "fetched e = Inr anns \<Longrightarrow> k \<in> set (confirmed cfg e posted anns) \<Longrightarrow>
   record_of e anns k \<in> set (appended cfg e posted)"
  by (simp add: appended_def)

lemma set_candidates:
  "set (candidates posted anns) = {i. i < length anns \<and> ann_id (anns ! i) \<notin> set (map rec_id posted)}"
  by (auto simp add: candidates_def)

subsection \<open>What loadPosted repairs, and the attempts of a call\<close>

lemma loadPosted_resets:
  "db w = Some Unparsable \<or> db w = None \<Longrightarrow>
   loadPosted w = (Records [], writeFileSync [] w) \<and>
   loadPosted (writeFileSync [] w) = (Records [], writeFileSync [] w)"
  by (auto simp add: loadPosted_def writeFileSync_def)

lemma stored_say: "stored (say l w) = stored w"
  by (simp add: stored_def loadPosted_def say_def writeFileSync_def split: option.splits db_file.splits)

lemma Send_in_concat:
  "Send j u k \<in> set (concat (map (sends_at e i) [0 ..< n])) \<Longrightarrow> u < n"
  by (auto simp add: sends_at_def split: if_splits)

lemma first_Send_in_concat:
  "u < n \<Longrightarrow> Send i u 1 \<in> set (concat (map (sends_at e i) [0 ..< n]))"
  using Send_in_sends_at [of i u e] by auto

lemma attempted_all:
  assumes "Send j t k \<in> set (snd (postToDiscord cfg e i a))"
    and "u < length (WEBHOOK_URLS cfg)"
  shows "Send i u 1 \<in> set (snd (postToDiscord cfg e i a))"
proof -
  have "embed_error e a = None"
    using assms(1) by (auto simp add: postToDiscord_events split: if_splits)
  then show ?thesis
    using first_Send_in_concat [OF assms(2), of i e] by (simp add: postToDiscord_events)
qed

lemma sends_to_postToDiscord:
  "sends_to i t (snd (postToDiscord cfg e i a)) =
     (if embed_error e a = None \<and> t < length (WEBHOOK_URLS cfg)
      then (if send e i t 1 = None then [1] else if send e i t 2 = None then [1, 2] else [1, 2, 3])
      else [])"
  by (simp add: postToDiscord_events sends_to_concat)

section \<open>The properties\<close>

text \<open>
  C6. For every webhook \<open>t\<close>, a call of \<^verbatim>\<open>postToDiscord\<close> makes at most three attempts,
  numbered from 1, and never a fourth. When any attempt is made at all, the first attempt
  at every webhook of the configuration is made, whatever happened at the others. When
  the embed is built, the attempts at a configured webhook are one, two or three, the
  result list \<^verbatim>\<open>results\<close> has exactly one outcome per webhook and is what the call
  returns unless all outcomes are failures; and when the three attempts at \<open>t\<close> fail,
  the outcome of \<open>t\<close> is the failure carrying the message of the third attempt.
\<close>

theorem retry_ceiling:
  "sends_to i t (snd (postToDiscord cfg e i a)) \<in> {[], [1], [1, 2], [1, 2, 3]} \<and>
   (Send i t k \<in> set (snd (postToDiscord cfg e i a)) \<longrightarrow>
      (\<forall>u<length (WEBHOOK_URLS cfg). Send i u 1 \<in> set (snd (postToDiscord cfg e i a)))) \<and>
   (embed_error e a = None \<and> t < length (WEBHOOK_URLS cfg) \<longrightarrow>
      length (outcomes cfg e i) = length (WEBHOOK_URLS cfg) \<and>
      fst (postToDiscord cfg e i a) =
        (if list_all (\<lambda>r. \<not> success r) (outcomes cfg e i)
         then Inl ''Failed to post to all Discord webhooks after multiple retries''
         else Inr (outcomes cfg e i)) \<and>
      sends_to i t (snd (postToDiscord cfg e i a)) \<in> {[1], [1, 2], [1, 2, 3]} \<and>
      (send e i t 1 = Some m1 \<and> send e i t 2 = Some m2 \<and> send e i t 3 = Some m3 \<longrightarrow>
         sends_to i t (snd (postToDiscord cfg e i a)) = [1, 2, 3] \<and>
         outcomes cfg e i ! t =
           \<lparr>success = False, serverName = nameOf (WEBHOOK_NAMES cfg) t, error = Some m3\<rparr>))"
proof -
  have ceiling: "sends_to i t (snd (postToDiscord cfg e i a)) \<in> {[], [1], [1, 2], [1, 2, 3]}"
    by (simp add: sends_to_postToDiscord)
  have others: "Send i t k \<in> set (snd (postToDiscord cfg e i a)) \<longrightarrow>
      (\<forall>u<length (WEBHOOK_URLS cfg). Send i u 1 \<in> set (snd (postToDiscord cfg e i a)))"
    using attempted_all [of i t k cfg e i a] by blast
  have built: "embed_error e a = None \<and> t < length (WEBHOOK_URLS cfg) \<longrightarrow>
      length (outcomes cfg e i) = length (WEBHOOK_URLS cfg) \<and>
      fst (postToDiscord cfg e i a) =
        (if list_all (\<lambda>r. \<not> success r) (outcomes cfg e i)
         then Inl ''Failed to post to all Discord webhooks after multiple retries''
         else Inr (outcomes cfg e i)) \<and>
      sends_to i t (snd (postToDiscord cfg e i a)) \<in> {[1], [1, 2], [1, 2, 3]} \<and>
      (send e i t 1 = Some m1 \<and> send e i t 2 = Some m2 \<and> send e i t 3 = Some m3 \<longrightarrow>
         sends_to i t (snd (postToDiscord cfg e i a)) = [1, 2, 3] \<and>
         outcomes cfg e i ! t =
           \<lparr>success = False, serverName = nameOf (WEBHOOK_NAMES cfg) t, error = Some m3\<rparr>)"
  proof (intro impI, elim conjE)
    assume ok: "embed_error e a = None" and lt: "t < length (WEBHOOK_URLS cfg)"
    have len: "length (outcomes cfg e i) = length (WEBHOOK_URLS cfg)"
      by (simp add: outcomes_map)
    have res: "fst (postToDiscord cfg e i a) =
        (if list_all (\<lambda>r. \<not> success r) (outcomes cfg e i)
         then Inl ''Failed to post to all Discord webhooks after multiple retries''
         else Inr (outcomes cfg e i))"
      using lt by (auto simp add: postToDiscord_result ok)
    have out: "outcomes cfg e i ! t = outcome_at cfg e i t"
      using lt by (simp add: outcomes_map)
    show "length (outcomes cfg e i) = length (WEBHOOK_URLS cfg) \<and>
      fst (postToDiscord cfg e i a) =
        (if list_all (\<lambda>r. \<not> success r) (outcomes cfg e i)
         then Inl ''Failed to post to all Discord webhooks after multiple retries''
         else Inr (outcomes cfg e i)) \<and>
      sends_to i t (snd (postToDiscord cfg e i a)) \<in> {[1], [1, 2], [1, 2, 3]} \<and>
      (send e i t 1 = Some m1 \<and> send e i t 2 = Some m2 \<and> send e i t 3 = Some m3 \<longrightarrow>
         sends_to i t (snd (postToDiscord cfg e i a)) = [1, 2, 3] \<and>
         outcomes cfg e i ! t =
           \<lparr>success = False, serverName = nameOf (WEBHOOK_NAMES cfg) t, error = Some m3\<rparr>)"
      using len res by (auto simp add: sends_to_postToDiscord ok lt out outcome_at_def reached_def)
  qed
  show ?thesis
    using ceiling others built by blast
qed

theorem retry_ceiling_witness:
  "embed_error first_hook_down notice1 = None \<and>
   0 < length (WEBHOOK_URLS two_hooks) \<and>
   send first_hook_down 5 0 1 = Some ''HTTP 500 #1'' \<and>
   send first_hook_down 5 0 2 = Some ''HTTP 500 #2'' \<and>
   send first_hook_down 5 0 3 = Some ''HTTP 500 #3'' \<and>
   sends_to 5 0 (snd (postToDiscord two_hooks first_hook_down 5 notice1)) = [1, 2, 3] \<and>
   outcomes two_hooks first_hook_down 5 ! 0 =
     \<lparr>success = False, serverName = ''Alpha'', error = Some ''HTTP 500 #3''\<rparr> \<and>
   Send 5 1 1 \<in> set (snd (postToDiscord two_hooks first_hook_down 5 notice1))"
proof -
  have b: "embed_error first_hook_down notice1 = None"
    by code_simp
  have h0: "0 < length (WEBHOOK_URLS two_hooks)" and h1: "1 < length (WEBHOOK_URLS two_hooks)"
    by code_simp+
  have s1: "send first_hook_down 5 0 1 = Some ''HTTP 500 #1''"
    and s2: "send first_hook_down 5 0 2 = Some ''HTTP 500 #2''"
    and s3: "send first_hook_down 5 0 3 = Some ''HTTP 500 #3''"
    by code_simp+
  have n: "nameOf (WEBHOOK_NAMES two_hooks) 0 = ''Alpha''"
    by code_simp
  note c = retry_ceiling [of 5 0 two_hooks first_hook_down notice1 1
      "''HTTP 500 #1''" "''HTTP 500 #2''" "''HTTP 500 #3''"]
  have c1: "sends_to 5 0 (snd (postToDiscord two_hooks first_hook_down 5 notice1)) = [1, 2, 3]"
    using c b h0 s1 s2 s3 by blast
  have c2: "outcomes two_hooks first_hook_down 5 ! 0 =
     \<lparr>success = False, serverName = ''Alpha'', error = Some ''HTTP 500 #3''\<rparr>"
    using c b h0 s1 s2 s3 unfolding n by blast
  have "Send 5 0 1 \<in> set (snd (postToDiscord two_hooks first_hook_down 5 notice1))"
    by code_simp
  then have c3: "Send 5 1 1 \<in> set (snd (postToDiscord two_hooks first_hook_down 5 notice1))"
    using c h1 by blast
  show ?thesis
    by (intro conjI b h0 s1 s2 s3 c1 c2 c3)
qed

text \<open>
  C8 does not hold of the code. A database file that parses, but not to an array of
  records (here a file holding \<^verbatim>\<open>{}\<close>), is not treated as corrupt: \<^verbatim>\<open>loadPosted\<close>
  returns what it parsed and writes nothing, \<^verbatim>\<open>main\<close> throws at line 350 before it
  fetches the feed, and since the file is never repaired every later cycle ends the same
  way, with no item posted. (For a file that does not parse and for an absent file the
  reset happens, see \<open>loadPosted_resets\<close>.)
\<close>

theorem malformed_state_not_recovered:
  "db malformed = Some Malformed \<and>
   loadPosted malformed = (NotRecords, malformed) \<and>
   fetched calm = Inr [notice3, notice2, notice1] \<and>
   db (main one_hook calm malformed) = Some Malformed \<and>
   trace (main one_hook calm malformed) = [Log TypeErrorInMain] \<and>
   db (run one_hook [calm, calm, calm] malformed) = Some Malformed \<and>
   trace (run one_hook [calm, calm, calm] malformed) =
     [Log TypeErrorInMain, Log TypeErrorInMain, Log TypeErrorInMain]"
  by (simp add: malformed_def calm_def main_def loadPosted_def say_def)

text \<open>
  C7, as the code has it. When the fetch fails, the cycle appends nothing to the store and
  leaves \<^verbatim>\<open>lastSyncTime\<close> alone, and the file is what \<^verbatim>\<open>loadPosted\<close> left: untouched
  (no write at all) when it was present and parsed, and overwritten with the empty array
  when it was absent or did not parse. The only other event is the logged error (the
  TypeError of line 350 when the file parsed to something else than an array of records).
\<close>

theorem fetch_failure_frame:
  assumes "fetched e = Inl err"
  shows "stored (main cfg e w) = stored w \<and>
    lastSyncTime (main cfg e w) = lastSyncTime w \<and>
    db (main cfg e w) =
      (case db w of Some (Json v) \<Rightarrow> db w | Some Malformed \<Rightarrow> db w | _ \<Rightarrow> Some (Json [])) \<and>
    cycle_events cfg e w =
      (case db w of Some (Json v) \<Rightarrow> [] | Some Malformed \<Rightarrow> [] | _ \<Rightarrow> [WriteFile []]) @
      [Log (if db w = Some Malformed then TypeErrorInMain else ErrorInMain err)]"
proof (cases "db w = Some Malformed")
  case True
  then show ?thesis
    using main_lastSyncTime_early [of e err cfg w] assms
    by (simp add: main_stored_cases main_Malformed_db cycle_events_Malformed)
next
  case usable: False
  have a: "appended cfg e (stored w) = []"
    by (simp add: appended_def assms)
  have d: "db (main cfg e w) =
      (case db w of Some (Json v) \<Rightarrow> db w | Some Malformed \<Rightarrow> db w | _ \<Rightarrow> Some (Json []))"
    using usable
    by (simp add: main_db a) (simp add: stored_def loadPosted_def split: option.splits db_file.splits)
  show ?thesis
    using main_lastSyncTime_early [of e err cfg w] assms usable
    by (simp add: main_stored a d cycle_events_eq load_events_def)
qed

theorem fetch_failure_frame_witness:
  "fetched feed_down = Inl ''RSS feed error: 503 Service Unavailable'' \<and>
   db (main one_hook feed_down settled) = db settled \<and>
   cycle_events one_hook feed_down settled =
     [Log (ErrorInMain ''RSS feed error: 503 Service Unavailable'')]"
proof -
  have f: "fetched feed_down = Inl ''RSS feed error: 503 Service Unavailable''"
    by (simp add: feed_down_def)
  show ?thesis
    using fetch_failure_frame [OF f, of one_hook settled] f
    by (simp add: settled_def)
qed

text \<open>
  C7 as stated fails: with the file absent, or not parsing, a cycle whose fetch fails
  leaves a file holding the empty array.
\<close>

theorem fetch_failure_rewrites_file:
  "fetched feed_down = Inl ''RSS feed error: 503 Service Unavailable'' \<and>
   db absent = None \<and>
   db (main one_hook feed_down absent) = Some (Json []) \<and>
   db corrupt = Some Unparsable \<and>
   db (main one_hook feed_down corrupt) = Some (Json [])"
  by (simp add: feed_down_def absent_def corrupt_def main_def loadPosted_def writeFileSync_def say_def)

text \<open>
  C9, as the code has it. When the feed is empty, the cycle logs that no announcement was
  found and returns: besides what \<^verbatim>\<open>loadPosted\<close> did there is no other event, so no
  backup check, and the store and \<^verbatim>\<open>lastSyncTime\<close> are unchanged. (When the file parsed
  to something else than an array of records, the one event is the TypeError of line
  350, and there is no backup check either.)
\<close>

theorem empty_feed_ends_cycle:
  assumes "fetched e = Inr []"
  shows "cycle_events cfg e w =
      (case db w of Some (Json v) \<Rightarrow> [] | Some Malformed \<Rightarrow> [] | _ \<Rightarrow> [WriteFile []]) @
      [Log (if db w = Some Malformed then TypeErrorInMain else NoAnnouncementsFound)] \<and>
    stored (main cfg e w) = stored w \<and>
    lastSyncTime (main cfg e w) = lastSyncTime w"
proof (cases "db w = Some Malformed")
  case True
  then show ?thesis
    using main_lastSyncTime_early [of e _ cfg w] assms
    by (simp add: main_stored_cases cycle_events_Malformed)
next
  case usable: False
  have a: "appended cfg e (stored w) = []"
    by (simp add: appended_def assms confirmed_def candidates_def)
  show ?thesis
    using main_lastSyncTime_early [of e _ cfg w] assms usable
    by (simp add: main_stored a cycle_events_eq load_events_def)
qed

theorem empty_feed_ends_cycle_witness:
  "fetched feed_empty = Inr [] \<and>
   cycle_events one_hook feed_empty settled = [Log NoAnnouncementsFound] \<and>
   stored (main one_hook feed_empty settled) = stored settled \<and>
   lastSyncTime (main one_hook feed_empty settled) = lastSyncTime settled"
proof -
  have f: "fetched feed_empty = Inr []"
    by (simp add: feed_empty_def)
  show ?thesis
    using empty_feed_ends_cycle [OF f, of one_hook settled] f
    by (simp add: settled_def)
qed

text \<open>
  C9 as stated fails: with a token configured and the last backup more than a day old,
  a cycle on an empty feed never calls \<^verbatim>\<open>syncToGitHub\<close>.
\<close>

theorem empty_feed_no_backup_check:
  "fetched feed_empty = Inr [] \<and>
   truthy (env_GITHUB_TOKEN one_hook) \<and>
   SYNC_INTERVAL_MS \<le> date_now feed_empty - lastSyncTime settled \<and>
   SyncToGitHub \<notin> set (trace (main one_hook feed_empty settled))"
  by (simp add: feed_empty_def calm_def settled_def one_hook_def SYNC_INTERVAL_MS_def main_def
      loadPosted_def say_def)

text \<open>
  C10, as the code has it. \<^verbatim>\<open>postToDiscord\<close> throws exactly when the embed cannot be
  built from the item, or there is a webhook and every outcome is a failure. There is no
  webhook exactly when \<^verbatim>\<open>WEBHOOK_URLS\<close> is unset or empty in the environment; then
  \<^verbatim>\<open>postToDiscord\<close> makes no attempt and, when the embed is built, returns the empty
  list; whether it throws or not the item does not count as delivered, and no sequence of
  cycles changes the store.
\<close>

theorem dispatcher_raises_iff:
  "((\<exists>err. fst (postToDiscord cfg e i a) = Inl err) \<longleftrightarrow>
      embed_error e a \<noteq> None \<or>
      WEBHOOK_URLS cfg \<noteq> [] \<and> list_all (\<lambda>r. \<not> success r) (outcomes cfg e i)) \<and>
   (WEBHOOK_URLS cfg = [] \<longleftrightarrow> \<not> truthy (env_WEBHOOK_URLS cfg)) \<and>
   (WEBHOOK_URLS cfg = [] \<longrightarrow>
      snd (postToDiscord cfg e i a) = [] \<and>
      (embed_error e a = None \<longrightarrow> fst (postToDiscord cfg e i a) = Inr []) \<and>
      \<not> delivered cfg e anns j \<and>
      stored (run cfg es w) = stored w)"
proof -
  have none: "WEBHOOK_URLS cfg = [] \<Longrightarrow> outcomes cfg e i = []"
    by (simp add: outcomes_map)
  have raises: "(\<exists>err. fst (postToDiscord cfg e i a) = Inl err) \<longleftrightarrow>
      embed_error e a \<noteq> None \<or>
      WEBHOOK_URLS cfg \<noteq> [] \<and> list_all (\<lambda>r. \<not> success r) (outcomes cfg e i)"
    by (cases "embed_error e a") (simp_all add: postToDiscord_result)
  have empty: "WEBHOOK_URLS cfg = [] \<longrightarrow>
      snd (postToDiscord cfg e i a) = [] \<and>
      (embed_error e a = None \<longrightarrow> fst (postToDiscord cfg e i a) = Inr []) \<and>
      \<not> delivered cfg e anns j \<and>
      stored (run cfg es w) = stored w"
    using none
    by (simp add: postToDiscord_events postToDiscord_result delivered_iff run_no_webhooks)
  show ?thesis
    using raises empty no_webhooks_iff [of cfg] by blast
qed

theorem dispatcher_raises_iff_witness:
  "WEBHOOK_URLS no_hooks = [] \<and>
   embed_error calm notice1 = None \<and>
   fst (postToDiscord no_hooks calm 0 notice1) = Inr [] \<and>
   stored (run no_hooks [calm, nameless, calm] absent) = stored absent \<and>
   WEBHOOK_URLS two_hooks \<noteq> [] \<and>
   fst (postToDiscord two_hooks first_hook_down 0 notice1) =
     Inr [\<lparr>success = False, serverName = ''Alpha'', error = Some ''HTTP 500 #3''\<rparr>,
          \<lparr>success = True, serverName = ''Server 2'', error = None\<rparr>]"
proof -
  have h: "WEBHOOK_URLS no_hooks = []"
    by code_simp
  have b: "embed_error calm notice1 = None"
    by code_simp
  have t: "WEBHOOK_URLS two_hooks \<noteq> []"
    by code_simp
  have p: "fst (postToDiscord two_hooks first_hook_down 0 notice1) =
     Inr [\<lparr>success = False, serverName = ''Alpha'', error = Some ''HTTP 500 #3''\<rparr>,
          \<lparr>success = True, serverName = ''Server 2'', error = None\<rparr>]"
    by code_simp
  note c = dispatcher_raises_iff [of no_hooks calm 0 notice1 "[notice1]" 0
      "[calm, nameless, calm]" absent]
  have c1: "fst (postToDiscord no_hooks calm 0 notice1) = Inr []"
    using c h b by blast
  have c2: "stored (run no_hooks [calm, nameless, calm] absent) = stored absent"
    using c h by blast
  show ?thesis
    by (intro conjI h b c1 c2 t p)
qed

text \<open>
  C10 as stated fails: with no webhook configured, \<^verbatim>\<open>postToDiscord\<close> still throws for
  an item whose embed the builder rejects, here an item without a title.
\<close>

theorem dispatcher_raises_without_webhooks:
  "WEBHOOK_URLS no_hooks = [] \<and>
   ann_title untitled = [] \<and>
   embed_error nameless untitled = Some ''Invalid string length'' \<and>
   postToDiscord no_hooks nameless 0 untitled = (Inl ''Invalid string length'', [])"
  by code_simp

text \<open>
  C3. The loop calls \<^verbatim>\<open>postToDiscord\<close> on the items whose id is not in the store in
  descending index order, that is oldest first for a feed that lists the newest first
  (a cycle that stops at line 350, on a file that is not an array of records, calls it on
  none); and when the loop is reached and every item is new and delivered, the store
  after the cycle is the old store followed by one record per item in the reverse of the
  feed order.
\<close>

theorem oldest_first:
  assumes "fetched e = Inr anns"
  shows "dispatched (cycle_events cfg e w) =
      (if db w = Some Malformed then []
       else filter (\<lambda>i. ann_id (anns ! i) \<notin> set (map rec_id (stored w)))
              (rev [0 ..< length anns])) \<and>
    (db w \<noteq> Some Malformed \<and>
     (\<forall>i<length anns. ann_id (anns ! i) \<notin> set (map rec_id (stored w)) \<and>
        delivered cfg e anns i) \<longrightarrow>
       stored (main cfg e w) = stored w @ map (record_of e anns) (rev [0 ..< length anns]) \<and>
       map rec_id (stored (main cfg e w)) = map rec_id (stored w) @ rev (map ann_id anns))"
proof -
  have nth: "map (\<lambda>i. ann_id (anns ! i)) [0 ..< length anns] = map ann_id anns"
    by (rule nth_equalityI) simp_all
  have "map rec_id (map (record_of e anns) (rev [0 ..< length anns])) =
      rev (map (\<lambda>i. ann_id (anns ! i)) [0 ..< length anns])"
    by (simp add: record_of_def rev_map comp_def)
  then have ids: "map rec_id (map (record_of e anns) (rev [0 ..< length anns])) = rev (map ann_id anns)"
    by (simp only: nth)
  have all: "(\<forall>i<length anns. ann_id (anns ! i) \<notin> set (map rec_id (stored w)) \<and>
        delivered cfg e anns i) \<Longrightarrow>
      appended cfg e (stored w) = map (record_of e anns) (rev [0 ..< length anns])"
    by (simp add: appended_def assms confirmed_eq)
  have order: "dispatched (cycle_events cfg e w) =
      (if db w = Some Malformed then []
       else filter (\<lambda>i. ann_id (anns ! i) \<notin> set (map rec_id (stored w)))
              (rev [0 ..< length anns]))"
    by (simp add: cycle_events_Malformed dispatched_cycle assms candidates_def)
  show ?thesis
    using ids order by (auto simp add: main_stored all)
qed

theorem oldest_first_witness:
  "fetched calm = Inr [notice3, notice2, notice1] \<and>
   db absent \<noteq> Some Malformed \<and>
   stored absent = [] \<and>
   delivered one_hook calm [notice3, notice2, notice1] 0 \<and>
   delivered one_hook calm [notice3, notice2, notice1] 1 \<and>
   delivered one_hook calm [notice3, notice2, notice1] 2 \<and>
   dispatched (cycle_events one_hook calm absent) = [2, 1, 0] \<and>
   map rec_id (stored (main one_hook calm absent)) = [''n1'', ''n2'', ''n3'']"
proof -
  have f: "fetched calm = Inr [notice3, notice2, notice1]"
    by (simp add: calm_def)
  have m: "db absent \<noteq> Some Malformed"
    by (simp add: absent_def)
  have a: "stored absent = []"
    by code_simp
  have d0: "delivered one_hook calm [notice3, notice2, notice1] 0"
    and d1: "delivered one_hook calm [notice3, notice2, notice1] 1"
    and d2: "delivered one_hook calm [notice3, notice2, notice1] 2"
    by code_simp+
  have u: "\<forall>i<length [notice3, notice2, notice1].
      ann_id ([notice3, notice2, notice1] ! i) \<notin> set (map rec_id (stored absent)) \<and>
      delivered one_hook calm [notice3, notice2, notice1] i"
    using d0 d1 d2 by (simp add: a less_Suc_eq numeral_3_eq_3 numeral_2_eq_2)
  have r: "(if db absent = Some Malformed then []
       else filter (\<lambda>i. ann_id ([notice3, notice2, notice1] ! i) \<notin> set (map rec_id (stored absent)))
              (rev [0 ..< length [notice3, notice2, notice1]])) = [2, 1, 0]"
    by code_simp
  have n: "map rec_id (stored absent) @ rev (map ann_id [notice3, notice2, notice1]) =
      [''n1'', ''n2'', ''n3'']"
    by code_simp
  note c = oldest_first [OF f, of one_hook absent]
  have c1: "dispatched (cycle_events one_hook calm absent) = [2, 1, 0]"
    using c unfolding r by (rule conjunct1)
  have c2: "map rec_id (stored (main one_hook calm absent)) =
      map rec_id (stored absent) @ rev (map ann_id [notice3, notice2, notice1])"
    using c m u by blast
  show ?thesis
    by (intro conjI f m a d0 d1 d2 c1 c2 [unfolded n])
qed

text \<open>
  C1, as the code has it. Take a cycle that reaches the loop (the database file is not a
  text that parses to something else than an array of records), and an item of the feed
  whose id is not in the store and which no other item of the feed shares. If
  \<^verbatim>\<open>postToDiscord\<close> returns for it, before the 30 second timer fires, a result with a
  success, then after the cycle the store holds exactly one record with that id, made of
  the item's id and title and the time of the confirmation, and the cycle wrote the whole
  store to the file.
\<close>

theorem confirmed_delivery_persisted:
  assumes "fetched e = Inr anns" and "i < length anns"
    and "ann_id (anns ! i) \<notin> set (map rec_id (stored w))"
    and "\<not> timer_first e i"
    and "fst (postToDiscord cfg e i (anns ! i)) = Inr rs" and "list_ex success rs"
    and "\<forall>j<length anns. j \<noteq> i \<longrightarrow> ann_id (anns ! j) \<noteq> ann_id (anns ! i)"
    and "db w \<noteq> Some Malformed"
  shows "filter (\<lambda>r. rec_id r = ann_id (anns ! i)) (stored (main cfg e w)) =
      [\<lparr>rec_id = ann_id (anns ! i), rec_title = ann_title (anns ! i), postedAt = iso_now e i\<rparr>] \<and>
    db (main cfg e w) = Some (Json (stored (main cfg e w))) \<and>
    WriteFile (stored (main cfg e w)) \<in> set (cycle_events cfg e w)"
proof -
  let ?x = "ann_id (anns ! i)"
  let ?is = "confirmed cfg e (stored w) anns"
  have del: "delivered cfg e anns i"
    using assms(4-6) by (rule delivered_by_result)
  have mem: "i \<in> set ?is"
    using assms(2,3) del by (simp add: set_confirmed)
  have only: "\<forall>j\<in>set ?is. j \<noteq> i \<longrightarrow> \<not> ann_id (anns ! j) = ?x"
    using assms(7) by (simp add: set_confirmed)
  have sel: "filter (\<lambda>j. ann_id (anns ! j) = ?x) ?is = [i]"
    using distinct_confirmed mem _ only by (rule filter_single) simp
  have old: "filter (\<lambda>r. rec_id r = ?x) (stored w) = []"
    using assms(3) by (force simp add: filter_empty_conv)
  have new: "filter (\<lambda>r. rec_id r = ?x) (map (record_of e anns) ?is) = [record_of e anns i]"
    by (simp add: filter_map comp_def rec_id_record_of sel)
  have app: "appended cfg e (stored w) = map (record_of e anns) ?is"
    by (simp add: appended_def assms(1))
  have ne: "appended cfg e (stored w) \<noteq> []"
    using mem by (auto simp add: app)
  show ?thesis
    using save_in_cycle [OF assms(8) assms(1) ne]
    by (simp add: main_stored [OF assms(8)] main_db [OF assms(8)] app old new)
       (simp add: record_of_def)
qed

theorem confirmed_delivery_persisted_witness:
  "fetched calm = Inr [notice3, notice2, notice1] \<and>
   db settled \<noteq> Some Malformed \<and>
   ann_id ([notice3, notice2, notice1] ! 1) \<notin> set (map rec_id (stored settled)) \<and>
   \<not> timer_first calm 1 \<and>
   fst (postToDiscord one_hook calm 1 ([notice3, notice2, notice1] ! 1)) =
     Inr [\<lparr>success = True, serverName = ''Server 1'', error = None\<rparr>] \<and>
   filter (\<lambda>r. rec_id r = ''n2'') (stored (main one_hook calm settled)) =
     [\<lparr>rec_id = ''n2'', rec_title = ''Holiday notice'', postedAt = ''2025-01-04T00:00:01.000Z''\<rparr>] \<and>
   WriteFile (stored (main one_hook calm settled)) \<in> set (cycle_events one_hook calm settled)"
proof -
  have f: "fetched calm = Inr [notice3, notice2, notice1]"
    by (simp add: calm_def)
  have m: "db settled \<noteq> Some Malformed"
    by (simp add: settled_def)
  have l: "1 < length [notice3, notice2, notice1]"
    by simp
  have u: "ann_id ([notice3, notice2, notice1] ! 1) \<notin> set (map rec_id (stored settled))"
    by code_simp
  have t: "\<not> timer_first calm 1"
    by (simp add: calm_def)
  have p: "fst (postToDiscord one_hook calm 1 ([notice3, notice2, notice1] ! 1)) =
     Inr [\<lparr>success = True, serverName = ''Server 1'', error = None\<rparr>]"
    by code_simp
  have s: "list_ex success [\<lparr>success = True, serverName = ''Server 1'', error = None\<rparr>]"
    by simp
  have o: "\<forall>j<length [notice3, notice2, notice1].
      j \<noteq> 1 \<longrightarrow> ann_id ([notice3, notice2, notice1] ! j) \<noteq> ann_id ([notice3, notice2, notice1] ! 1)"
    by (simp add: less_Suc_eq numeral_3_eq_3 numeral_2_eq_2 notice1_def notice2_def notice3_def)
  have v: "ann_id ([notice3, notice2, notice1] ! 1) = ''n2''"
      "ann_title ([notice3, notice2, notice1] ! 1) = ''Holiday notice''"
      "iso_now calm 1 = ''2025-01-04T00:00:01.000Z''"
    by code_simp+
  note c = confirmed_delivery_persisted [OF f l u t p s o m]
  have c1: "filter (\<lambda>r. rec_id r = ''n2'') (stored (main one_hook calm settled)) =
     [\<lparr>rec_id = ''n2'', rec_title = ''Holiday notice'', postedAt = ''2025-01-04T00:00:01.000Z''\<rparr>]"
    using c unfolding v by (rule conjunct1)
  have c3: "WriteFile (stored (main one_hook calm settled)) \<in> set (cycle_events one_hook calm settled)"
    using c by (elim conjE)
  show ?thesis
    by (intro conjI f m u t p c1 c3)
qed

text \<open>
  C1 as stated fails twice. When the feed lists an item twice, both copies are posted and
  recorded, so the store holds two new records with the id. And when \<^verbatim>\<open>postToDiscord\<close>
  returns its success only after the 30 second timer of \<^verbatim>\<open>main\<close> has fired (here the
  third attempt follows two attempts that timed out), nothing is recorded.
\<close>

theorem success_not_persisted_or_twice:
  "fetched relisted = Inr [notice2, notice2] \<and>
   stored absent = [] \<and>
   fst (postToDiscord one_hook relisted 0 notice2) =
     Inr [\<lparr>success = True, serverName = ''Server 1'', error = None\<rparr>] \<and>
   map rec_id (stored (main one_hook relisted absent)) = [''n2'', ''n2''] \<and>
   fetched late = Inr [notice1] \<and>
   fst (postToDiscord one_hook late 0 notice1) =
     Inr [\<lparr>success = True, serverName = ''Server 1'', error = None\<rparr>] \<and>
   sends_to 0 0 (snd (postToDiscord one_hook late 0 notice1)) = [1, 2, 3] \<and>
   stored (main one_hook late absent) = []"
  by code_simp

text \<open>
  C5. When the store after a first cycle holds the id of every item the feed answers in
  the second cycle, the second cycle leaves the file and the store as they are, calls
  neither \<^verbatim>\<open>postToDiscord\<close> nor a webhook, and writes no file.
\<close>

theorem second_run_idempotent:
  assumes "fetched e2 = Inr anns"
    and "\<forall>a\<in>set anns. ann_id a \<in> set (map rec_id (stored (main cfg e1 w)))"
  shows "db (main cfg e2 (main cfg e1 w)) = db (main cfg e1 w) \<and>
    stored (main cfg e2 (main cfg e1 w)) = stored (main cfg e1 w) \<and>
    filter is_delivery (cycle_events cfg e2 (main cfg e1 w)) = [] \<and>
    filter is_write (cycle_events cfg e2 (main cfg e1 w)) = []"
proof (cases "db (main cfg e1 w) = Some Malformed")
  case True
  then show ?thesis
    by (simp add: main_Malformed_db main_stored_cases cycle_events_Malformed)
next
  case usable: False
  let ?w1 = "main cfg e1 w"
  have "db w \<noteq> Some Malformed"
    using usable main_Malformed_db [of w cfg e1] by blast
  then have d1: "db ?w1 = Some (Json (stored ?w1))"
    by (simp add: main_db main_stored)
  have c: "candidates (stored ?w1) anns = []"
    using assms(2) by (rule candidates_known)
  have a: "appended cfg e2 (stored ?w1) = []"
    by (simp add: appended_def assms(1) confirmed_def c)
  have ev: "cycle_events cfg e2 ?w1 =
      (if anns = [] then [Log NoAnnouncementsFound] else closing_events cfg e2 ?w1 [])"
    by (simp add: cycle_events_eq [OF usable] load_events_Json [OF d1] assms(1) c a
        dispatch_events_def)
  have d2: "db (main cfg e2 ?w1) = db ?w1"
    by (simp add: main_db [OF usable, of cfg e2] a d1)
  have s2: "stored (main cfg e2 ?w1) = stored ?w1"
    by (simp add: main_stored [OF usable, of cfg e2] a)
  show ?thesis
    by (simp add: d2 s2 ev filter_delivery_closing filter_write_closing)
qed

theorem second_run_idempotent_witness:
  "fetched calm = Inr [notice3, notice2, notice1] \<and>
   map rec_id (stored (main one_hook calm absent)) = [''n1'', ''n2'', ''n3''] \<and>
   db (main one_hook calm (main one_hook calm absent)) = db (main one_hook calm absent) \<and>
   filter is_delivery (cycle_events one_hook calm (main one_hook calm absent)) = [] \<and>
   filter is_write (cycle_events one_hook calm (main one_hook calm absent)) = []"
proof -
  have f: "fetched calm = Inr [notice3, notice2, notice1]"
    by (simp add: calm_def)
  have s: "map rec_id (stored (main one_hook calm absent)) = [''n1'', ''n2'', ''n3'']"
    by code_simp
  have k: "\<forall>a\<in>set [notice3, notice2, notice1].
      ann_id a \<in> set (map rec_id (stored (main one_hook calm absent)))"
    unfolding s by (simp add: notice1_def notice2_def notice3_def)
  note c = second_run_idempotent [OF f k]
  have c1: "db (main one_hook calm (main one_hook calm absent)) = db (main one_hook calm absent)"
    using c by (elim conjE)
  have c3: "filter is_delivery (cycle_events one_hook calm (main one_hook calm absent)) = []"
    using c by (elim conjE)
  have c4: "filter is_write (cycle_events one_hook calm (main one_hook calm absent)) = []"
    using c by (elim conjE)
  show ?thesis
    by (intro conjI f s c1 c3 c4)
qed

text \<open>
  C4, as the code has it. Starting from a store with pairwise distinct ids, the ids of the
  store stay pairwise distinct through any sequence of cycles in which no feed lists an
  id twice.
\<close>

theorem distinct_ids_preserved:
  assumes "distinct (map rec_id (stored w))" and "\<forall>e\<in>set es. distinct_feed e"
  shows "distinct (map rec_id (stored (run cfg es w)))"
  using assms
proof (induction es arbitrary: w)
  case Nil
  then show ?case by simp
next
  case (Cons e es)
  have "distinct (map rec_id (stored (main cfg e w)))"
    using Cons.prems by (intro main_distinct) (simp_all add: distinct_feed_def)
  then show ?case
    using Cons.IH Cons.prems(2) by simp
qed

theorem distinct_ids_preserved_witness:
  "distinct (map rec_id (stored settled)) \<and>
   distinct_feed calm \<and> distinct_feed feed_down \<and>
   distinct (map rec_id (stored (run one_hook [calm, feed_down, calm] settled))) \<and>
   map rec_id (stored (run one_hook [calm, feed_down, calm] settled)) = [''n1'', ''n2'', ''n3'']"
proof -
  have d: "distinct (map rec_id (stored settled))"
    by code_simp
  have f1: "distinct_feed calm" and f2: "distinct_feed feed_down"
    by code_simp+
  have a: "\<forall>e\<in>set [calm, feed_down, calm]. distinct_feed e"
    using f1 f2 by simp
  have m: "map rec_id (stored (run one_hook [calm, feed_down, calm] settled)) = [''n1'', ''n2'', ''n3'']"
    by code_simp
  show ?thesis
    by (intro conjI d f1 f2 m distinct_ids_preserved [OF d a])
qed

text \<open>
  C4 as stated fails: the known ids are computed once, before the loop, so a feed that
  lists an id twice gets it recorded twice in one cycle.
\<close>

theorem duplicate_ids_from_one_feed:
  "fetched echo = Inr [notice1, notice2, notice1] \<and>
   distinct (map rec_id (stored absent)) \<and>
   map rec_id (stored (run one_hook [echo] absent)) = [''n1'', ''n2'', ''n1''] \<and>
   \<not> distinct (map rec_id (stored (run one_hook [echo] absent)))"
  by code_simp

text \<open>
  C2, as \<^verbatim>\<open>main\<close> of notice-embed.js has it. Take a cycle that reaches the loop, and let
  \<open>x\<close> be an id that is not in the store, such that every webhook outcome is a failure
  for every item of the feed that carries \<open>x\<close>. Then no such item counts as delivered and
  \<open>x\<close> is not in the store after the cycle; every other new item that is delivered in
  the same cycle has its record in the store; and a later cycle whose feed lists \<open>x\<close>
  calls \<^verbatim>\<open>postToDiscord\<close> on it again.
\<close>

theorem all_failed_not_persisted:
  assumes "fetched e = Inr anns"
    and "x \<notin> set (map rec_id (stored w))"
    and "\<forall>j<length anns. ann_id (anns ! j) = x \<longrightarrow>
           list_all (\<lambda>r. \<not> success r) (outcomes cfg e j)"
    and "db w \<noteq> Some Malformed"
  shows "x \<notin> set (map rec_id (stored (main cfg e w))) \<and>
    (\<forall>j<length anns. ann_id (anns ! j) = x \<longrightarrow> \<not> delivered cfg e anns j) \<and>
    (\<forall>k<length anns.
        ann_id (anns ! k) \<notin> set (map rec_id (stored w)) \<and> delivered cfg e anns k \<longrightarrow>
        record_of e anns k \<in> set (stored (main cfg e w))) \<and>
    (fetched e' = Inr anns' \<and> j' < length anns' \<and> ann_id (anns' ! j') = x \<longrightarrow>
       j' \<in> set (dispatched (cycle_events cfg e' (main cfg e w))))"
proof -
  have nd: "\<forall>j<length anns. ann_id (anns ! j) = x \<longrightarrow> \<not> delivered cfg e anns j"
    using assms(3) not_delivered_all_failed by blast
  have new: "x \<notin> set (map rec_id (appended cfg e (stored w)))"
    using nd by (auto simp add: ids_appended [OF assms(1)] set_confirmed)
  have absent: "x \<notin> set (map rec_id (stored (main cfg e w)))"
    using assms(2) new by (simp add: main_stored [OF assms(4)])
  have others: "\<forall>k<length anns.
        ann_id (anns ! k) \<notin> set (map rec_id (stored w)) \<and> delivered cfg e anns k \<longrightarrow>
        record_of e anns k \<in> set (stored (main cfg e w))"
    using record_in_appended [OF assms(1), of _ cfg "stored w"]
    by (simp add: main_stored [OF assms(4)] set_confirmed)
  have after: "db (main cfg e w) \<noteq> Some Malformed"
    by (simp add: main_db [OF assms(4)])
  have again: "fetched e' = Inr anns' \<and> j' < length anns' \<and> ann_id (anns' ! j') = x \<longrightarrow>
       j' \<in> set (dispatched (cycle_events cfg e' (main cfg e w)))"
    using absent by (auto simp add: dispatched_cycle [OF after] set_candidates)
  show ?thesis
    using absent nd others again by blast
qed

theorem all_failed_not_persisted_witness:
  "fetched outage = Inr [notice2, notice1] \<and>
   db absent \<noteq> Some Malformed \<and>
   ''n2'' \<notin> set (map rec_id (stored absent)) \<and>
   outcomes two_hooks outage 0 =
     [\<lparr>success = False, serverName = ''Alpha'', error = Some ''HTTP 503''\<rparr>,
      \<lparr>success = False, serverName = ''Server 2'', error = Some ''HTTP 503''\<rparr>] \<and>
   delivered two_hooks outage [notice2, notice1] 1 \<and>
   ''n2'' \<notin> set (map rec_id (stored (main two_hooks outage absent))) \<and>
   record_of outage [notice2, notice1] 1 \<in> set (stored (main two_hooks outage absent)) \<and>
   0 \<in> set (dispatched (cycle_events two_hooks outage (main two_hooks outage absent)))"
proof -
  have f: "fetched outage = Inr [notice2, notice1]"
    by (simp add: outage_def)
  have m: "db absent \<noteq> Some Malformed"
    by (simp add: absent_def)
  have a: "''n2'' \<notin> set (map rec_id (stored absent))"
    by code_simp
  have o: "outcomes two_hooks outage 0 =
     [\<lparr>success = False, serverName = ''Alpha'', error = Some ''HTTP 503''\<rparr>,
      \<lparr>success = False, serverName = ''Server 2'', error = Some ''HTTP 503''\<rparr>]"
    by code_simp
  have d: "delivered two_hooks outage [notice2, notice1] 1"
    by code_simp
  have i1: "ann_id ([notice2, notice1] ! 1) \<noteq> ''n2''" and i0: "ann_id ([notice2, notice1] ! 0) = ''n2''"
    by code_simp+
  have u1: "ann_id ([notice2, notice1] ! 1) \<notin> set (map rec_id (stored absent))"
    by code_simp
  have h: "\<forall>j<length [notice2, notice1]. ann_id ([notice2, notice1] ! j) = ''n2'' \<longrightarrow>
      list_all (\<lambda>r. \<not> success r) (outcomes two_hooks outage j)"
    using i1 by (simp add: less_Suc_eq numeral_2_eq_2 o)
  note c = all_failed_not_persisted [OF f a h m, of outage "[notice2, notice1]" 0]
  have c1: "''n2'' \<notin> set (map rec_id (stored (main two_hooks outage absent)))"
    using c by (elim conjE)
  have c2: "record_of outage [notice2, notice1] 1 \<in> set (stored (main two_hooks outage absent))"
    using c u1 d by simp
  have c3: "0 \<in> set (dispatched (cycle_events two_hooks outage (main two_hooks outage absent)))"
    using c f i0 by simp
  show ?thesis
    by (intro conjI f m a o d c1 c2 c3)
qed

text \<open>
  C2 as stated fails twice. In \<^verbatim>\<open>main\<close> of notice-embed.js, when the feed lists an item
  twice, every outcome can be a failure for one copy while the other copy is delivered,
  and the id is then in the store. In \<^verbatim>\<open>main\<close> of the earlier copy of the program, the
  error thrown for an item whose outcomes are all failures leaves the loop for the outer
  \<^verbatim>\<open>catch\<close>: \<^verbatim>\<open>savePosted\<close> is not reached, and the record of an item delivered earlier
  in the same cycle is not written, where \<^verbatim>\<open>main\<close> of notice-embed.js writes it.
\<close>

theorem all_failed_yet_recorded_or_others_lost:
  "fetched half_listed = Inr [notice2, notice2] \<and>
   stored absent = [] \<and>
   outcomes one_hook half_listed 0 =
     [\<lparr>success = False, serverName = ''Server 1'', error = Some ''HTTP 503''\<rparr>] \<and>
   dispatched (trace (main one_hook half_listed absent)) = [1, 0] \<and>
   map rec_id (stored (main one_hook half_listed absent)) = [''n2''] \<and>
   fetched outage = Inr [notice2, notice1] \<and>
   fst (postToDiscord_part_001 one_hook outage 1 notice1) =
     Inr [\<lparr>success = True, serverName = ''Server 1'', error = None\<rparr>] \<and>
   fst (postToDiscord_part_001 one_hook outage 0 notice2) =
     Inl ''Failed to post to all Discord webhooks'' \<and>
   dispatched (trace (main_part_001 one_hook outage absent)) = [1, 0] \<and>
   db (main_part_001 one_hook outage absent) = None \<and>
   stored (main_part_001 one_hook outage absent) = [] \<and>
   map rec_id (stored (main one_hook outage absent)) = [''n1'']"
  by code_simp

end
